theory Spec2Isabelle
  imports
    Main
    "HOL-Library.Word"
    "HOL-Library.Finite_Map"
    "HOL-Library.Signed_Division"
    "HOL-Library.Char_ord"
    "HOL-Library.List_Lexorder"
begin

section \<open>P2Poker: the poker engine and the table replica\<close>

text \<open>
  A shallow embedding of the Go packages \<^verbatim>\<open>internal/engine\<close> and \<^verbatim>\<open>internal/table\<close>.

  Conventions of the embedding.
  \<^item> Go's \<^verbatim>\<open>int64\<close> (chips) is a 64-bit word read as two's complement: \<open>+\<close> and \<open>-\<close>
    wrap, comparisons are the signed ones (\<open>word_sle\<close>, \<open>word_sless\<close>), division and
    remainder truncate towards zero.
  \<^item> Go's \<^verbatim>\<open>uint64\<close> (sequence numbers, epochs, the Lamport clock) is a 64-bit word read
    as unsigned.
  \<^item> Go's \<^verbatim>\<open>int\<close> (slice indices, the counter \<^verbatim>\<open>ActorsToAct\<close>) has a width that depends
    on the platform; it is modelled by an unbounded integer, with \<^verbatim>\<open>%\<close> as the truncating
    remainder \<open>smod\<close>.
  \<^item> \<^verbatim>\<open>byte\<close> is an 8-bit word; a Go string is a \<open>string\<close>.
  \<^item> \<^verbatim>\<open>map[PlayerID]*Seat\<close> is a finite map to seat values: no two keys ever share a
    pointer (every seat is allocated by \<^verbatim>\<open>Sit\<close> or \<^verbatim>\<open>RestoreFromSnapshot\<close>).
  \<^item> A method that mutates its receiver takes the state and returns the new state; an
    \<^verbatim>\<open>error\<close> result is returned beside it (\<open>None\<close> is Go's \<^verbatim>\<open>nil\<close>), because some
    methods return an error after they have already changed the state.  A run-time panic
    (index out of range, nil pointer) is the error \<open>ErrPanic\<close>.
\<close>

type_synonym int64 = "64 word"
type_synonym uint64 = "64 word"
type_synonym byte = "8 word"

subsection \<open>Cards (types.go, card\_json.go)\<close>

type_synonym Suit = byte
type_synonym Rank = byte

abbreviation (input) SuitClubs :: Suit where "SuitClubs \<equiv> 0"
abbreviation (input) SuitDiamonds :: Suit where "SuitDiamonds \<equiv> 1"
abbreviation (input) SuitHearts :: Suit where "SuitHearts \<equiv> 2"
abbreviation (input) SuitSpades :: Suit where "SuitSpades \<equiv> 3"

abbreviation (input) RankTwo :: Rank where "RankTwo \<equiv> 2"
abbreviation (input) RankThree :: Rank where "RankThree \<equiv> 3"
abbreviation (input) RankFour :: Rank where "RankFour \<equiv> 4"
abbreviation (input) RankFive :: Rank where "RankFive \<equiv> 5"
abbreviation (input) RankSix :: Rank where "RankSix \<equiv> 6"
abbreviation (input) RankSeven :: Rank where "RankSeven \<equiv> 7"
abbreviation (input) RankEight :: Rank where "RankEight \<equiv> 8"
abbreviation (input) RankNine :: Rank where "RankNine \<equiv> 9"
abbreviation (input) RankTen :: Rank where "RankTen \<equiv> 10"
abbreviation (input) RankJack :: Rank where "RankJack \<equiv> 11"
abbreviation (input) RankQueen :: Rank where "RankQueen \<equiv> 12"
abbreviation (input) RankKing :: Rank where "RankKing \<equiv> 13"
abbreviation (input) RankAce :: Rank where "RankAce \<equiv> 14"

record Card =
  Rank :: Rank
  Suit :: Suit

definition rankToChar :: "Rank \<Rightarrow> char option" where
  "rankToChar r =
     (if r = RankTwo then Some CHR ''2''
      else if r = RankThree then Some CHR ''3''
      else if r = RankFour then Some CHR ''4''
      else if r = RankFive then Some CHR ''5''
      else if r = RankSix then Some CHR ''6''
      else if r = RankSeven then Some CHR ''7''
      else if r = RankEight then Some CHR ''8''
      else if r = RankNine then Some CHR ''9''
      else if r = RankTen then Some CHR ''T''
      else if r = RankJack then Some CHR ''J''
      else if r = RankQueen then Some CHR ''Q''
      else if r = RankKing then Some CHR ''K''
      else if r = RankAce then Some CHR ''A''
      else None)"

text \<open>\<^verbatim>\<open>u -= 'a' - 'A'\<close> and \<^verbatim>\<open>u += 'a' - 'A'\<close> on a byte.\<close>

definition upper_byte :: "char \<Rightarrow> char" where
  "upper_byte u =
     (if CHR ''a'' \<le> u \<and> u \<le> CHR ''z'' then char_of (of_char u - (32::nat)) else u)"

definition lower_byte :: "char \<Rightarrow> char" where
  "lower_byte u =
     (if CHR ''A'' \<le> u \<and> u \<le> CHR ''Z'' then char_of (of_char u + (32::nat)) else u)"

definition charToRank :: "char \<Rightarrow> Rank option" where
  "charToRank ch =
     (let u = upper_byte ch in
      if u = CHR ''2'' then Some RankTwo
      else if u = CHR ''3'' then Some RankThree
      else if u = CHR ''4'' then Some RankFour
      else if u = CHR ''5'' then Some RankFive
      else if u = CHR ''6'' then Some RankSix
      else if u = CHR ''7'' then Some RankSeven
      else if u = CHR ''8'' then Some RankEight
      else if u = CHR ''9'' then Some RankNine
      else if u = CHR ''T'' then Some RankTen
      else if u = CHR ''J'' then Some RankJack
      else if u = CHR ''Q'' then Some RankQueen
      else if u = CHR ''K'' then Some RankKing
      else if u = CHR ''A'' then Some RankAce
      else None)"

definition suitToChar :: "Suit \<Rightarrow> char option" where
  "suitToChar s =
     (if s = SuitClubs then Some CHR ''c''
      else if s = SuitDiamonds then Some CHR ''d''
      else if s = SuitHearts then Some CHR ''h''
      else if s = SuitSpades then Some CHR ''s''
      else None)"

datatype card_error = InvalidRank | InvalidSuit | InvalidLiteral | InvalidRankChar | InvalidSuitChar

text \<open>
  \<^verbatim>\<open>Card.MarshalJSON\<close>: the two-character text \<^verbatim>\<open>str\<close> that is handed to
  \<^verbatim>\<open>json.Marshal\<close>.  The quoting that \<^verbatim>\<open>encoding/json\<close> adds around it, and removes
  again in \<^verbatim>\<open>UnmarshalJSON\<close>, is the standard library's and not modelled.
\<close>

definition MarshalJSON :: "Card \<Rightarrow> card_error + string" where
  "MarshalJSON c =
     (case rankToChar (Rank c) of
        None \<Rightarrow> Inl InvalidRank
      | Some r \<Rightarrow>
          (case suitToChar (Suit c) of
             None \<Rightarrow> Inl InvalidSuit
           | Some s \<Rightarrow> Inr [r, s]))"

text \<open>
  \<^verbatim>\<open>strings.TrimSpace\<close> removes the leading and the trailing runes for which
  \<^verbatim>\<open>unicode.IsSpace\<close> holds.  A Go string is a list of bytes; the runes in question are the
  six ASCII ones, U+0085 and U+00A0 (two bytes in UTF-8), and U+1680, U+2000 to U+200A,
  U+2028, U+2029, U+202F, U+205F and U+3000 (three bytes).  A byte that starts no valid
  encoding decodes to U+FFFD, which is not a space, and stops the trimming.
\<close>

definition is_space :: "char \<Rightarrow> bool" where
  "is_space ch \<longleftrightarrow> ch \<in> set [CHR 0x09, CHR 0x0A, CHR 0x0B, CHR 0x0C, CHR 0x0D, CHR '' '']"

definition is_space2 :: "char \<Rightarrow> char \<Rightarrow> bool" where
  "is_space2 a b \<longleftrightarrow> a = CHR 0xC2 \<and> (b = CHR 0x85 \<or> b = CHR 0xA0)"

definition is_space3 :: "char \<Rightarrow> char \<Rightarrow> char \<Rightarrow> bool" where
  "is_space3 a b c \<longleftrightarrow>
     (a = CHR 0xE1 \<and> b = CHR 0x9A \<and> c = CHR 0x80)
     \<or> (a = CHR 0xE2 \<and> b = CHR 0x80
          \<and> ((CHR 0x80 \<le> c \<and> c \<le> CHR 0x8A) \<or> c = CHR 0xA8 \<or> c = CHR 0xA9 \<or> c = CHR 0xAF))
     \<or> (a = CHR 0xE2 \<and> b = CHR 0x81 \<and> c = CHR 0x9F)
     \<or> (a = CHR 0xE3 \<and> b = CHR 0x80 \<and> c = CHR 0x80)"

text \<open>Trimming at the front.\<close>

fun trimLeft :: "string \<Rightarrow> string" where
  "trimLeft (a # b # c # r) =
     (if is_space a then trimLeft (b # c # r)
      else if is_space2 a b then trimLeft (c # r)
      else if is_space3 a b c then trimLeft r
      else a # b # c # r)"
| "trimLeft [a, b] =
     (if is_space a then trimLeft [b] else if is_space2 a b then [] else [a, b])"
| "trimLeft [a] = (if is_space a then [] else [a])"
| "trimLeft [] = []"

text \<open>Trimming at the back, on the reversed string: the last byte comes first.\<close>

fun trimRight :: "string \<Rightarrow> string" where
  "trimRight (c # b # a # r) =
     (if is_space c then trimRight (b # a # r)
      else if is_space2 b c then trimRight (a # r)
      else if is_space3 a b c then trimRight r
      else c # b # a # r)"
| "trimRight [c, b] =
     (if is_space c then trimRight [b] else if is_space2 b c then [] else [c, b])"
| "trimRight [c] = (if is_space c then [] else [c])"
| "trimRight [] = []"

definition TrimSpace :: "string \<Rightarrow> string" where
  "TrimSpace s = rev (trimRight (rev (trimLeft s)))"

text \<open>\<^verbatim>\<open>Card.UnmarshalJSON\<close>, from the string that \<^verbatim>\<open>json.Unmarshal\<close> decoded.\<close>

definition UnmarshalJSON :: "string \<Rightarrow> card_error + Card" where
  "UnmarshalJSON s0 =
     (let s = TrimSpace s0 in
      if length s \<noteq> 2 then Inl InvalidLiteral
      else
        let rCh = s ! 0; sCh = s ! 1 in
        (case charToRank rCh of
           None \<Rightarrow> Inl InvalidRankChar
         | Some r \<Rightarrow>
             let u = lower_byte sCh in
             if u = CHR ''c'' then Inr \<lparr>Rank = r, Suit = SuitClubs\<rparr>
             else if u = CHR ''d'' then Inr \<lparr>Rank = r, Suit = SuitDiamonds\<rparr>
             else if u = CHR ''h'' then Inr \<lparr>Rank = r, Suit = SuitHearts\<rparr>
             else if u = CHR ''s'' then Inr \<lparr>Rank = r, Suit = SuitSpades\<rparr>
             else Inl InvalidSuitChar))"


subsection \<open>Engine state (types.go)\<close>

type_synonym Phase = int

abbreviation (input) PhasePreflop :: Phase where "PhasePreflop \<equiv> 0"
abbreviation (input) PhaseFlop :: Phase where "PhaseFlop \<equiv> 1"
abbreviation (input) PhaseTurn :: Phase where "PhaseTurn \<equiv> 2"
abbreviation (input) PhaseRiver :: Phase where "PhaseRiver \<equiv> 3"
abbreviation (input) PhaseShowdown :: Phase where "PhaseShowdown \<equiv> 4"

type_synonym PlayerID = string

record Seat =
  Player :: PlayerID
  Stack :: int64
  Committed :: int64
  InHand :: bool
  AllIn :: bool
  Folded :: bool

record State =
  SmallBlind :: int64
  BigBlind :: int64
  DealerIdx :: int
  Order :: "PlayerID list"
  TurnIdx :: int
  Phase :: Phase
  Pot :: int64
  Seats :: "(PlayerID, Seat) fmap"
  Deck :: "Card list"
  Board :: "Card list"
  Holes :: "(PlayerID, Card list) fmap"
  CurrentBet :: int64
  ActorsToAct :: int
  LastRaiseSize :: int64
  HandActive :: bool

record EngineSnapshot =
  ssSmallBlind :: int64
  ssBigBlind :: int64
  ssDealerIdx :: int
  ssOrder :: "PlayerID list"
  ssTurnIdx :: int
  ssPhase :: Phase
  ssPot :: int64
  ssBoard :: "Card list"
  ssSeats :: "(PlayerID, Seat) fmap"

definition Snapshot :: "State \<Rightarrow> EngineSnapshot" where
  "Snapshot s =
     \<lparr>ssSmallBlind = SmallBlind s, ssBigBlind = BigBlind s, ssDealerIdx = DealerIdx s,
      ssOrder = Order s, ssTurnIdx = TurnIdx s, ssPhase = Phase s, ssPot = Pot s,
      ssBoard = Board s, ssSeats = Seats s\<rparr>"

text \<open>
  \<^verbatim>\<open>RestoreFromSnapshot\<close> empties the receiver's seat map and refills it from the
  snapshot; every other field of the receiver that the snapshot does not carry is kept.
\<close>

definition RestoreFromSnapshot :: "State \<Rightarrow> EngineSnapshot \<Rightarrow> State" where
  "RestoreFromSnapshot s ss =
     s\<lparr>SmallBlind := ssSmallBlind ss, BigBlind := ssBigBlind ss, DealerIdx := ssDealerIdx ss,
       Order := ssOrder ss, TurnIdx := ssTurnIdx ss, Phase := ssPhase ss, Pot := ssPot ss,
       Board := ssBoard ss, Seats := ssSeats ss\<rparr>"

subsection \<open>Seating, dealing and blinds (types.go)\<close>

datatype error =
    ErrAlreadySeated
  | ErrUnknownPlayer
  | ErrInsufficient
  | ErrNotPlayersTurn
  | ErrOther string  \<comment> \<open>\<^verbatim>\<open>errors.New(...)\<close> with the given message\<close>
  | ErrPanic         \<comment> \<open>a run-time panic: index out of range or nil pointer\<close>

definition NewState :: "int64 \<Rightarrow> int64 \<Rightarrow> State" where
  "NewState sb bb =
     \<lparr>SmallBlind = sb, BigBlind = bb, DealerIdx = 0, Order = [], TurnIdx = 0,
      Phase = PhasePreflop, Pot = 0, Seats = fmempty, Deck = [], Board = [],
      Holes = fmempty, CurrentBet = 0, ActorsToAct = 0, LastRaiseSize = 0,
      HandActive = False\<rparr>"

text \<open>\<^verbatim>\<open>sort.Slice\<close> with the byte-wise order of Go strings.\<close>

definition sortOrder :: "State \<Rightarrow> State" where
  "sortOrder s = s\<lparr>Order := sort (Order s)\<rparr>"

definition Sit :: "PlayerID \<Rightarrow> int64 \<Rightarrow> State \<Rightarrow> error option \<times> State" where
  "Sit p buyin s =
     (case fmlookup (Seats s) p of
        Some _ \<Rightarrow> (Some ErrAlreadySeated, s)
      | None \<Rightarrow>
          (None,
           sortOrder
             (s\<lparr>Seats := fmupd p \<lparr>Player = p, Stack = buyin, Committed = 0, InHand = False,
                                  AllIn = False, Folded = False\<rparr> (Seats s),
                Order := Order s @ [p]\<rparr>)))"

definition Leave :: "PlayerID \<Rightarrow> State \<Rightarrow> State" where
  "Leave p s =
     (let out = filter (\<lambda>q. q \<noteq> p) (Order s);
          s1 = s\<lparr>Seats := fmdrop p (Seats s), Holes := fmdrop p (Holes s), Order := out\<rparr>
      in if TurnIdx s1 \<ge> int (length (Order s1)) then s1\<lparr>TurnIdx := 0\<rparr> else s1)"

text \<open>
  \<^verbatim>\<open>*rand.Rand\<close> belongs to the standard library.  A generator is modelled by the stream
  of its raw outputs: the \<open>k\<close>-th call, \<^verbatim>\<open>r.Intn(n)\<close>, yields \<open>r k mod n\<close>.
\<close>

type_synonym Rand = "nat \<Rightarrow> nat"

definition freshDeck :: "Card list" where
  "freshDeck =
     concat (map (\<lambda>s. map (\<lambda>rnk. \<lparr>Rank = of_nat rnk, Suit = of_nat s\<rparr>) [2..<15]) [0..<4])"

text \<open>Fisher-Yates: \<^verbatim>\<open>for i := len(deck)-1; i > 0; i-- { j := r.Intn(i+1); swap }\<close>.\<close>

fun shuffle :: "Rand \<Rightarrow> nat \<Rightarrow> nat \<Rightarrow> Card list \<Rightarrow> Card list" where
  "shuffle r k 0 deck = deck"
| "shuffle r k (Suc i) deck =
     (let j = r k mod (Suc i + 1)
      in shuffle r (k + 1) i (deck[Suc i := deck ! j, j := deck ! Suc i]))"

definition NewDeck :: "Rand \<Rightarrow> Card list" where
  "NewDeck r = shuffle r 0 (length freshDeck - 1) freshDeck"

text \<open>\<^verbatim>\<open>postBlind\<close>; \<open>None\<close> is the nil-pointer panic on a player without a seat.\<close>

definition postBlind :: "PlayerID \<Rightarrow> int64 \<Rightarrow> State \<Rightarrow> State option" where
  "postBlind p amt s =
     (case fmlookup (Seats s) p of
        None \<Rightarrow> None
      | Some seat \<Rightarrow>
          if Stack seat \<le>s 0 then Some (s\<lparr>Seats := fmupd p (seat\<lparr>AllIn := True\<rparr>) (Seats s)\<rparr>)
          else
            let short = Stack seat <s amt;
                pay = (if short then Stack seat else amt);
                seat1 = (if short then seat\<lparr>AllIn := True\<rparr> else seat);
                seat2 = seat1\<lparr>Stack := Stack seat1 - pay, Committed := Committed seat1 + pay\<rparr>
            in Some (s\<lparr>Seats := fmupd p seat2 (Seats s), Pot := Pot s + pay\<rparr>))"

definition eligible :: "State \<Rightarrow> PlayerID \<Rightarrow> bool" where
  "eligible s pid =
     (case fmlookup (Seats s) pid of
        None \<Rightarrow> False
      | Some st \<Rightarrow> InHand st \<and> \<not> Folded st \<and> \<not> AllIn st)"

text \<open>The loop of \<^verbatim>\<open>countNeedToAct\<close> over \<^verbatim>\<open>s.Order\<close>.\<close>

fun needLoop :: "State \<Rightarrow> PlayerID list \<Rightarrow> int \<Rightarrow> int" where
  "needLoop s [] need = need"
| "needLoop s (pid # rest) need =
     (if \<not> eligible s pid then needLoop s rest need
      else
        (case fmlookup (Seats s) pid of
           None \<Rightarrow> needLoop s rest need
         | Some st \<Rightarrow>
             if CurrentBet s = 0 then needLoop s rest (need + 1)
             else if Committed st <s CurrentBet s then needLoop s rest (need + 1)
             else needLoop s rest need))"

definition countNeedToAct :: "State \<Rightarrow> int" where
  "countNeedToAct s = (if length (Order s) = 0 then 0 else needLoop s (Order s) 0)"

definition RoundClosed :: "State \<Rightarrow> bool" where
  "RoundClosed s =
     (if \<not> HandActive s then False
      else
        let elig = int (length (filter (eligible s) (Order s)))
        in ActorsToAct s \<le> 0 \<or> elig \<le> 1)"

text \<open>Slice indexing with Go's bounds check.\<close>

definition index :: "'a list \<Rightarrow> int \<Rightarrow> 'a option" where
  "index xs i = (if 0 \<le> i \<and> i < int (length xs) then Some (xs ! nat i) else None)"

text \<open>The loop that deals two hole cards to every seat still in the hand.\<close>

fun dealHoles :: "PlayerID list \<Rightarrow> State \<Rightarrow> error option \<times> State" where
  "dealHoles [] s = (None, s)"
| "dealHoles (pid # rest) s =
     (case fmlookup (Seats s) pid of
        None \<Rightarrow> (Some ErrPanic, s)
      | Some st \<Rightarrow>
          if InHand st \<and> \<not> Folded st then
            if length (Deck s) < 2 then (Some (ErrOther ''deck underflow dealing holes''), s)
            else dealHoles rest
                   (s\<lparr>Holes := fmupd pid [Deck s ! 0, Deck s ! 1] (Holes s),
                      Deck := drop 2 (Deck s)\<rparr>)
          else dealHoles rest s)"

definition StartHand :: "Rand \<Rightarrow> State \<Rightarrow> error option \<times> State" where
  "StartHand r s =
     (if length (Order s) < 2 then (Some (ErrOther ''need at least 2 players''), s)
      else
        let n = int (length (Order s));
            s1 = s\<lparr>Pot := 0,
                   Seats := fmmap (\<lambda>seat. seat\<lparr>Committed := 0, InHand := True, Folded := False,
                                               AllIn := False\<rparr>) (Seats s),
                   HandActive := True\<rparr>;
            s2 = s1\<lparr>DealerIdx := (DealerIdx s1 + 1) smod n\<rparr>;
            sbIdx = (DealerIdx s2 + 1) smod n;
            bbIdx = (DealerIdx s2 + 2) smod n
        in
          (case index (Order s2) sbIdx of
             None \<Rightarrow> (Some ErrPanic, s2)
           | Some sbp \<Rightarrow>
               (case postBlind sbp (SmallBlind s2) s2 of
                  None \<Rightarrow> (Some ErrPanic, s2)
                | Some s3 \<Rightarrow>
                    (case index (Order s3) bbIdx of
                       None \<Rightarrow> (Some ErrPanic, s3)
                     | Some bbp \<Rightarrow>
                         (case postBlind bbp (BigBlind s3) s3 of
                            None \<Rightarrow> (Some ErrPanic, s3)
                          | Some s4 \<Rightarrow>
                              let s5 = s4\<lparr>TurnIdx := (bbIdx + 1) smod n, Phase := PhasePreflop,
                                         CurrentBet := BigBlind s4, LastRaiseSize := BigBlind s4\<rparr>;
                                  s6 = s5\<lparr>ActorsToAct := countNeedToAct s5\<rparr>;
                                  s7 = s6\<lparr>Deck := NewDeck r, Board := [], Holes := fmempty\<rparr>
                              in dealHoles (Order s7) s7)))))"

subsection \<open>Turn order and phases (types.go)\<close>

text \<open>\<^verbatim>\<open>CurrentPlayer\<close>; \<open>None\<close> is the index-out-of-range panic.\<close>

definition CurrentPlayer :: "State \<Rightarrow> PlayerID option" where
  "CurrentPlayer s = (if length (Order s) = 0 then Some [] else index (Order s) (TurnIdx s))"

definition ensureTurn :: "PlayerID \<Rightarrow> State \<Rightarrow> error option" where
  "ensureTurn p s =
     (case CurrentPlayer s of
        None \<Rightarrow> Some ErrPanic
      | Some q \<Rightarrow> if q \<noteq> p then Some ErrNotPlayersTurn else None)"

text \<open>
  The loop of \<^verbatim>\<open>advanceTurn\<close>; the first argument counts the iterations that are left.
  \<open>None\<close> is a panic: a negative index, or a player of \<^verbatim>\<open>Order\<close> without a seat.
\<close>

fun advanceTurnLoop :: "nat \<Rightarrow> State \<Rightarrow> State option" where
  "advanceTurnLoop 0 s = Some s"
| "advanceTurnLoop (Suc k) s =
     (let s1 = s\<lparr>TurnIdx := (TurnIdx s + 1) smod int (length (Order s))\<rparr>
      in case index (Order s1) (TurnIdx s1) of
           None \<Rightarrow> None
         | Some pid \<Rightarrow>
             (case fmlookup (Seats s1) pid of
                None \<Rightarrow> None
              | Some st \<Rightarrow>
                  if InHand st \<and> \<not> Folded st \<and> \<not> AllIn st then Some s1
                  else advanceTurnLoop k s1))"

definition advanceTurn :: "State \<Rightarrow> State option" where
  "advanceTurn s =
     (if length (Order s) = 0 then Some s else advanceTurnLoop (length (Order s)) s)"

definition resetCommittedAndSetTurnFromDealer :: "State \<Rightarrow> State" where
  "resetCommittedAndSetTurnFromDealer s =
     (let s1 = s\<lparr>Seats := fmmap (\<lambda>seat. seat\<lparr>Committed := 0\<rparr>) (Seats s)\<rparr>
      in if length (Order s1) = 0 then
           s1\<lparr>TurnIdx := 0, CurrentBet := 0, LastRaiseSize := BigBlind s1, ActorsToAct := 0\<rparr>
         else
           let first = (DealerIdx s1 + 1) smod int (length (Order s1));
               s2 = s1\<lparr>TurnIdx := first, CurrentBet := 0, LastRaiseSize := BigBlind s1\<rparr>
           in s2\<lparr>ActorsToAct := countNeedToAct s2\<rparr>)"

definition AdvancePhase :: "State \<Rightarrow> State" where
  "AdvancePhase s =
     (if Phase s = PhasePreflop then
        let s1 = (if length (Deck s) \<ge> 3
                  then s\<lparr>Board := Board s @ take 3 (Deck s), Deck := drop 3 (Deck s)\<rparr> else s)
        in (resetCommittedAndSetTurnFromDealer s1)\<lparr>Phase := PhaseFlop\<rparr>
      else if Phase s = PhaseFlop then
        let s1 = (if length (Deck s) \<ge> 1
                  then s\<lparr>Board := Board s @ [Deck s ! 0], Deck := drop 1 (Deck s)\<rparr> else s)
        in (resetCommittedAndSetTurnFromDealer s1)\<lparr>Phase := PhaseTurn\<rparr>
      else if Phase s = PhaseTurn then
        let s1 = (if length (Deck s) \<ge> 1
                  then s\<lparr>Board := Board s @ [Deck s ! 0], Deck := drop 1 (Deck s)\<rparr> else s)
        in (resetCommittedAndSetTurnFromDealer s1)\<lparr>Phase := PhaseRiver\<rparr>
      else if Phase s = PhaseRiver then
        s\<lparr>Phase := PhaseShowdown, HandActive := False\<rparr>
      else s)"

subsection \<open>Betting actions (types.go)\<close>

definition min64 :: "int64 \<Rightarrow> int64 \<Rightarrow> int64" where
  "min64 a b = (if a <s b then a else b)"

text \<open>The common tail of the actions: \<^verbatim>\<open>s.advanceTurn(); return nil\<close>.\<close>

definition advanceTurnOk :: "State \<Rightarrow> error option \<times> State" where
  "advanceTurnOk s = (case advanceTurn s of None \<Rightarrow> (Some ErrPanic, s) | Some s1 \<Rightarrow> (None, s1))"

definition Bet :: "PlayerID \<Rightarrow> int64 \<Rightarrow> State \<Rightarrow> error option \<times> State" where
  "Bet p amt s =
     (case fmlookup (Seats s) p of
        None \<Rightarrow> (Some ErrUnknownPlayer, s)
      | Some st \<Rightarrow>
          (case ensureTurn p s of
             Some e \<Rightarrow> (Some e, s)
           | None \<Rightarrow>
               if 0 <s CurrentBet s then
                 (Some (ErrOther ''cannot bet; a bet already exists (use raise)''), s)
               else if amt <s BigBlind s then
                 (Some (ErrOther ''bet must be at least the big blind''), s)
               else if amt \<le>s 0 then (Some (ErrOther ''bet must be > 0''), s)
               else if Stack st <s amt then (Some ErrInsufficient, s)
               else
                 let st1 = st\<lparr>Stack := Stack st - amt, Committed := Committed st + amt\<rparr>;
                     s1 = s\<lparr>Seats := fmupd p st1 (Seats s), Pot := Pot s + amt\<rparr>;
                     s2 = s1\<lparr>CurrentBet := Committed st1, LastRaiseSize := amt\<rparr>;
                     s3 = s2\<lparr>ActorsToAct := countNeedToAct s2\<rparr>
                 in advanceTurnOk s3))"

definition Check :: "PlayerID \<Rightarrow> State \<Rightarrow> error option \<times> State" where
  "Check p s =
     (case fmlookup (Seats s) p of
        None \<Rightarrow> (Some ErrUnknownPlayer, s)
      | Some st \<Rightarrow>
          (case ensureTurn p s of
             Some e \<Rightarrow> (Some e, s)
           | None \<Rightarrow>
               if CurrentBet s = 0 then advanceTurnOk (s\<lparr>ActorsToAct := ActorsToAct s - 1\<rparr>)
               else if Committed st \<noteq> CurrentBet s then
                 (Some (ErrOther ''cannot check; unmatched to current bet''), s)
               else advanceTurnOk (s\<lparr>ActorsToAct := ActorsToAct s - 1\<rparr>)))"

definition Fold :: "PlayerID \<Rightarrow> State \<Rightarrow> error option \<times> State" where
  "Fold p s =
     (case fmlookup (Seats s) p of
        None \<Rightarrow> (Some ErrUnknownPlayer, s)
      | Some st \<Rightarrow>
          (case ensureTurn p s of
             Some e \<Rightarrow> (Some e, s)
           | None \<Rightarrow>
               let s1 = (if 0 <s CurrentBet s \<and> Committed st <s CurrentBet s
                         then s\<lparr>ActorsToAct := ActorsToAct s - 1\<rparr> else s);
                   s2 = s1\<lparr>Seats := fmupd p (st\<lparr>Folded := True, InHand := False\<rparr>) (Seats s1)\<rparr>
               in advanceTurnOk s2))"

definition Call :: "PlayerID \<Rightarrow> State \<Rightarrow> error option \<times> State" where
  "Call p s =
     (case fmlookup (Seats s) p of
        None \<Rightarrow> (Some ErrUnknownPlayer, s)
      | Some st \<Rightarrow>
          (case ensureTurn p s of
             Some e \<Rightarrow> (Some e, s)
           | None \<Rightarrow>
               if CurrentBet s = 0 then (Some (ErrOther ''nothing to call''), s)
               else
                 let need = CurrentBet s - Committed st in
                 if need \<le>s 0 then (Some (ErrOther ''already matched''), s)
                 else if need \<le>s Stack st then
                   let st1 = st\<lparr>Stack := Stack st - need, Committed := Committed st + need\<rparr>;
                       s1 = s\<lparr>Seats := fmupd p st1 (Seats s), Pot := Pot s + need,
                              ActorsToAct := ActorsToAct s - 1\<rparr>
                   in advanceTurnOk s1
                 else
                   let allin = Stack st in
                   if allin \<le>s 0 then (Some ErrInsufficient, s)
                   else
                     let st1 = st\<lparr>Stack := 0, AllIn := True, Committed := Committed st + allin\<rparr>;
                         s1 = s\<lparr>Seats := fmupd p st1 (Seats s), Pot := Pot s + allin,
                                ActorsToAct := ActorsToAct s - 1\<rparr>
                     in advanceTurnOk s1))"

text \<open>
  \<^verbatim>\<open>Raise\<close> ends with a call of itself on the same arguments, in a branch that the three
  tests before it exclude; the termination proof shows that the branch is never taken.
\<close>

function Raise :: "PlayerID \<Rightarrow> int64 \<Rightarrow> State \<Rightarrow> error option \<times> State" where
  "Raise p add s =
     (case fmlookup (Seats s) p of
        None \<Rightarrow> (Some ErrUnknownPlayer, s)
      | Some st \<Rightarrow>
          (case ensureTurn p s of
             Some e \<Rightarrow> (Some e, s)
           | None \<Rightarrow>
               if CurrentBet s = 0 then (Some (ErrOther ''nothing to raise (use bet)''), s)
               else if add \<le>s 0 then (Some (ErrOther ''raise must be > 0''), s)
               else
                 let need = (if Committed st <s CurrentBet s then CurrentBet s - Committed st
                             else 0);
                     total = need + add
                 in
                   if LastRaiseSize s \<le>s add \<and> total \<le>s Stack st then
                     let st1 = (if 0 <s need
                                then st\<lparr>Stack := Stack st - need, Committed := Committed st + need\<rparr>
                                else st);
                         pot1 = (if 0 <s need then Pot s + need else Pot s);
                         st2 = st1\<lparr>Stack := Stack st1 - add, Committed := Committed st1 + add\<rparr>;
                         s1 = s\<lparr>Seats := fmupd p st2 (Seats s), Pot := pot1 + add\<rparr>;
                         s2 = s1\<lparr>CurrentBet := Committed st2, LastRaiseSize := add\<rparr>;
                         s3 = s2\<lparr>ActorsToAct := countNeedToAct s2\<rparr>
                     in advanceTurnOk s3
                   else if Stack st <s total then
                     let callPart = min64 (Stack st) need;
                         st1 = (if 0 <s callPart
                                then st\<lparr>Stack := Stack st - callPart,
                                        Committed := Committed st + callPart\<rparr>
                                else st);
                         pot1 = (if 0 <s callPart then Pot s + callPart else Pot s);
                         remain = Stack st1
                     in
                       if remain \<le>s 0 then
                         (Some ErrInsufficient, s\<lparr>Seats := fmupd p st1 (Seats s), Pot := pot1\<rparr>)
                       else
                         let st2 = st1\<lparr>Stack := 0, AllIn := True,
                                       Committed := Committed st1 + remain\<rparr>;
                             s1 = s\<lparr>Seats := fmupd p st2 (Seats s), Pot := pot1 + remain\<rparr>;
                             s2 = (if Committed st2 - remain <s CurrentBet s1
                                   then s1\<lparr>ActorsToAct := ActorsToAct s1 - 1\<rparr>
                                   else if 0 <s need
                                   then s1\<lparr>ActorsToAct := ActorsToAct s1 - 1\<rparr>
                                   else s1)
                         in advanceTurnOk s2
                   else if add <s LastRaiseSize s then
                     (Some (ErrOther ''raise too small (below min-raise)''), s)
                   else Raise p add s))"
  by pat_completeness auto
termination
proof (relation "{}")
  show "wf {}" by simp
next
  fix p :: PlayerID and add :: int64 and s :: State and st :: Seat and need total :: int64
  assume "need = (if Committed st <s CurrentBet s then CurrentBet s - Committed st else 0)"
    and "total = need + add"
    and a: "\<not> (LastRaiseSize s \<le>s add \<and> total \<le>s Stack st)"
    and b: "\<not> Stack st <s total"
    and c: "\<not> add <s LastRaiseSize s"
  from b have "total \<le>s Stack st" by (simp add: signed.not_less)
  moreover from c have "LastRaiseSize s \<le>s add" by (simp add: signed.not_less)
  ultimately have False using a by simp
  then show "((p, add, s), (p, add, s)) \<in> {}" ..
qed

subsection \<open>Hand evaluation (eval.go)\<close>

type_synonym Category = int

abbreviation (input) CatHighCard :: Category where "CatHighCard \<equiv> 0"
abbreviation (input) CatOnePair :: Category where "CatOnePair \<equiv> 1"
abbreviation (input) CatTwoPair :: Category where "CatTwoPair \<equiv> 2"
abbreviation (input) CatTrips :: Category where "CatTrips \<equiv> 3"
abbreviation (input) CatStraight :: Category where "CatStraight \<equiv> 4"
abbreviation (input) CatFlush :: Category where "CatFlush \<equiv> 5"
abbreviation (input) CatFullHouse :: Category where "CatFullHouse \<equiv> 6"
abbreviation (input) CatQuads :: Category where "CatQuads \<equiv> 7"
abbreviation (input) CatStraightFlush :: Category where "CatStraightFlush \<equiv> 8"

text \<open>The arrays \<^verbatim>\<open>[5]Rank\<close> and \<^verbatim>\<open>[5]Card\<close> are lists of length five.\<close>

record HandValue =
  Cat :: Category
  Ranks :: "Rank list"

fun ranksLess :: "Rank list \<Rightarrow> Rank list \<Rightarrow> bool" where
  "ranksLess (a # as) (b # bs) = (if a \<noteq> b then a < b else ranksLess as bs)"
| "ranksLess _ _ = False"

definition Less :: "HandValue \<Rightarrow> HandValue \<Rightarrow> bool" where
  "Less hv other =
     (if Cat hv \<noteq> Cat other then Cat hv < Cat other else ranksLess (Ranks hv) (Ranks other))"

definition zeroCard :: Card where
  "zeroCard = \<lparr>Rank = 0, Suit = 0\<rparr>"

definition fill :: "Category \<Rightarrow> Rank list \<Rightarrow> HandValue" where
  "fill cat ks = \<lparr>Cat = cat, Ranks = take 5 (ks @ replicate 5 0)\<rparr>"

definition pad5 :: "Card list \<Rightarrow> Card list" where
  "pad5 cs = take 5 (cs @ replicate 5 zeroCard)"

text \<open>The ranks 14 down to 2, the range of every \<^verbatim>\<open>for r := 14; r >= 2; r--\<close>.\<close>

definition ranksDesc :: "nat list" where
  "ranksDesc = [14, 13, 12, 11, 10, 9, 8, 7, 6, 5, 4, 3, 2]"

text \<open>\<^verbatim>\<open>rankCount[r]\<close>, \<^verbatim>\<open>suitCount[s]\<close> and \<^verbatim>\<open>bySuit[s]\<close> after the counting loop.\<close>

definition rankCount :: "Card list \<Rightarrow> nat \<Rightarrow> nat" where
  "rankCount all r = length (filter (\<lambda>c. unat (Rank c) = r) all)"

definition suitCount :: "Card list \<Rightarrow> nat \<Rightarrow> nat" where
  "suitCount all s = length (filter (\<lambda>c. unat (Suit c) = s) all)"

definition bySuit :: "Card list \<Rightarrow> nat \<Rightarrow> Card list" where
  "bySuit all s = filter (\<lambda>c. unat (Suit c) = s) all"

definition rankBits :: "Card list \<Rightarrow> 16 word" where
  "rankBits cs = fold (\<lambda>c bits. or bits (push_bit (unat (Rank c)) 1)) cs 0"

fun straightLoop :: "16 word \<Rightarrow> nat list \<Rightarrow> nat \<Rightarrow> Rank" where
  "straightLoop bits [] run = 0"
| "straightLoop bits (r # rs) run =
     (if and (drop_bit r bits) 1 = 1 then
        (if run + 1 = 5 then of_nat (r + 4) else straightLoop bits rs (run + 1))
      else straightLoop bits rs 0)"

definition wheelMask :: "16 word" where
  "wheelMask = or (push_bit 14 1) (or (push_bit 5 1) (or (push_bit 4 1) (or (push_bit 3 1) (push_bit 2 1))))"

definition straightTop :: "16 word \<Rightarrow> Rank" where
  "straightTop bits =
     (if and bits wheelMask = wheelMask then 5 else straightLoop bits ranksDesc 0)"

text \<open>A stable insertion sort for \<^verbatim>\<open>sort.SliceStable\<close> (and \<^verbatim>\<open>sort.Slice\<close>) with a comparator.\<close>

fun insertBy :: "('a \<Rightarrow> 'a \<Rightarrow> bool) \<Rightarrow> 'a \<Rightarrow> 'a list \<Rightarrow> 'a list" where
  "insertBy lt x [] = [x]"
| "insertBy lt x (y # ys) = (if lt y x then y # insertBy lt x ys else x # y # ys)"

definition sortBy :: "('a \<Rightarrow> 'a \<Rightarrow> bool) \<Rightarrow> 'a list \<Rightarrow> 'a list" where
  "sortBy lt xs = foldr (insertBy lt) xs []"

text \<open>A group is \<^verbatim>\<open>(rank, cnt)\<close>.\<close>

definition groupsOf :: "Card list \<Rightarrow> (Rank \<times> nat) list" where
  "groupsOf all =
     sortBy (\<lambda>gi gj. if snd gi \<noteq> snd gj then snd gi > snd gj else fst gi > fst gj)
       (map (\<lambda>r. (of_nat r, rankCount all r)) (filter (\<lambda>r. rankCount all r > 0) ranksDesc))"

definition highestExcept :: "(nat \<Rightarrow> nat) \<Rightarrow> Rank \<Rightarrow> Rank" where
  "highestExcept rc except =
     (case filter (\<lambda>r. of_nat r \<noteq> except \<and> rc r > 0) ranksDesc of
        [] \<Rightarrow> 0 | r # _ \<Rightarrow> of_nat r)"

definition topKicker :: "(nat \<Rightarrow> nat) \<Rightarrow> Rank \<Rightarrow> Rank \<Rightarrow> Rank" where
  "topKicker rc ex1 ex2 =
     (case filter (\<lambda>r. \<not> (of_nat r = ex1 \<or> of_nat r = ex2) \<and> rc r > 0) ranksDesc of
        [] \<Rightarrow> 0 | r # _ \<Rightarrow> of_nat r)"

definition topKickers :: "(nat \<Rightarrow> nat) \<Rightarrow> Rank \<Rightarrow> nat \<Rightarrow> Rank \<times> Rank" where
  "topKickers rc ex n =
     (let out = take n (filter (\<lambda>r. of_nat r \<noteq> ex \<and> rc r > 0) ranksDesc)
      in if length out = 1 then (of_nat (out ! 0), 0)
         else if length out = 0 then (0, 0)
         else (of_nat (out ! 0), of_nat (out ! 1)))"

definition topKickers3 :: "(nat \<Rightarrow> nat) \<Rightarrow> Rank \<Rightarrow> Rank \<times> Rank \<times> Rank" where
  "topKickers3 rc ex =
     (let out = take 3 (map of_nat (filter (\<lambda>r. of_nat r \<noteq> ex \<and> rc r > 0) ranksDesc)
                        @ replicate 3 0)
      in (out ! 0, out ! 1, out ! 2))"

definition topNRanks :: "(nat \<Rightarrow> nat) \<Rightarrow> nat \<Rightarrow> Rank list \<Rightarrow> Rank list" where
  "topNRanks rc n exclude =
     take n (map of_nat (filter (\<lambda>r. of_nat r \<notin> set exclude \<and> rc r > 0) ranksDesc)
             @ replicate n 0)"

definition collectOfRank :: "Card list \<Rightarrow> Rank \<Rightarrow> nat \<Rightarrow> Card list" where
  "collectOfRank all r want = pad5 (take want (filter (\<lambda>c. Rank c = r) all))"

definition kickerCard :: "Card list \<Rightarrow> Rank \<Rightarrow> Card" where
  "kickerCard all r =
     fst (fold (\<lambda>c (best, found).
                  if Rank c = r then
                    (if \<not> found \<or> Suit c > Suit best then (c, True) else (best, found))
                  else (best, found))
            all (zeroCard, False))"

text \<open>The inner loop of \<^verbatim>\<open>pickStraight\<close>: the index of the unused card of rank \<open>want\<close> with
  the highest suit.\<close>

definition bestIdx :: "Card list \<Rightarrow> nat list \<Rightarrow> Rank \<Rightarrow> nat option" where
  "bestIdx all used want =
     fold (\<lambda>i best.
             if i \<in> set used then best
             else if Rank (all ! i) = want then
               (case best of
                  None \<Rightarrow> Some i
                | Some b \<Rightarrow> if Suit (all ! i) > Suit (all ! b) then Some i else best)
             else best)
       [0..<length all] None"

fun pickLoop :: "Card list \<Rightarrow> Rank list \<Rightarrow> Card list \<Rightarrow> nat list \<Rightarrow> Card list" where
  "pickLoop all [] five used = five"
| "pickLoop all (want # rest) five used =
     (case bestIdx all used want of
        None \<Rightarrow> pickLoop all rest five used
      | Some i \<Rightarrow> pickLoop all rest (five @ [all ! i]) (i # used))"

definition pickStraight :: "Card list \<Rightarrow> Rank \<Rightarrow> HandValue \<times> Card list" where
  "pickStraight all tp =
     (let need = (if tp = 5 then [5, 4, 3, 2, 14]
                  else [tp, tp - 1, tp - 2, tp - 3, tp - 4])
      in (\<lparr>Cat = CatStraight, Ranks = [tp, 0, 0, 0, 0]\<rparr>, pad5 (pickLoop all need [] [])))"

text \<open>
  \<^verbatim>\<open>BestHand7\<close>.  \<open>None\<close> is the panic of the counting loop on a card whose rank is
  above 14 or whose suit is above 3 (\<^verbatim>\<open>rankCount\<close> has 15 entries, \<^verbatim>\<open>suitCount\<close> four).
\<close>

definition BestHand7 :: "Card list \<Rightarrow> Card list \<Rightarrow> (HandValue \<times> Card list) option" where
  "BestHand7 board holes =
     (let all = board @ holes in
      if \<exists>c \<in> set all. unat (Rank c) \<ge> 15 \<or> unat (Suit c) \<ge> 4 then None
      else
        let rc = rankCount all;
            present = rankBits all;
            groups = groupsOf all
        in
          (case filter (\<lambda>s. suitCount all s \<ge> 5) [0, 1, 2, 3] of
             fs # _ \<Rightarrow>
               let tp = straightTop (rankBits (bySuit all fs)) in
               if tp \<noteq> 0 then
                 Some (fill CatStraightFlush [tp], snd (pickStraight (bySuit all fs) tp))
               else
                 let five = take 5 (sortBy (\<lambda>ci cj. Rank ci > Rank cj) (bySuit all fs))
                 in Some (fill CatFlush (map Rank five), five)
           | [] \<Rightarrow>
               if length groups > 0 \<and> snd (groups ! 0) = 4 then
                 let quad = fst (groups ! 0);
                     kicker = highestExcept rc quad;
                     five = (collectOfRank all quad 4)[4 := kickerCard all kicker]
                 in Some (fill CatQuads [quad, kicker], five)
               else
                 let pairOrTrip =
                       (if length groups > 1 \<and> snd (groups ! 0) = 3
                        then (case filter (\<lambda>g. snd g \<ge> 2) (tl groups) of
                                [] \<Rightarrow> 0 | g # _ \<Rightarrow> fst g)
                        else 0)
                 in
                   if length groups > 1 \<and> snd (groups ! 0) = 3 \<and> pairOrTrip \<noteq> 0 then
                     let trip1 = fst (groups ! 0);
                         two = collectOfRank all pairOrTrip 2;
                         five = (collectOfRank all trip1 3)[3 := two ! 0, 4 := two ! 1]
                     in Some (fill CatFullHouse [trip1, pairOrTrip], five)
                   else if straightTop present \<noteq> 0 then
                     Some (fill CatStraight [straightTop present],
                           snd (pickStraight all (straightTop present)))
                   else if length groups > 0 \<and> snd (groups ! 0) = 3 then
                     let trip = fst (groups ! 0);
                         (k1, k2) = topKickers rc trip 2;
                         five = (collectOfRank all trip 3)
                                  [3 := kickerCard all k1, 4 := kickerCard all k2]
                     in Some (fill CatTrips [trip, k1, k2], five)
                   else if length groups > 1 \<and> snd (groups ! 0) = 2 \<and> snd (groups ! 1) = 2 then
                     let high = fst (groups ! 0);
                         low = fst (groups ! 1);
                         k = topKicker rc high low;
                         p2 = collectOfRank all low 2;
                         five = (collectOfRank all high 2)
                                  [2 := p2 ! 0, 3 := p2 ! 1, 4 := kickerCard all k]
                     in Some (fill CatTwoPair [high, low, k], five)
                   else if length groups > 0 \<and> snd (groups ! 0) = 2 then
                     let pair = fst (groups ! 0);
                         (k1, k2, k3) = topKickers3 rc pair;
                         five = (collectOfRank all pair 2)
                                  [2 := kickerCard all k1, 3 := kickerCard all k2,
                                   4 := kickerCard all k3]
                     in Some (fill CatOnePair [pair, k1, k2, k3], five)
                   else
                     let hi = topNRanks rc 5 []
                     in Some (fill CatHighCard hi, map (kickerCard all) hi)))"

subsection \<open>Showdown (eval.go)\<close>

record ShowdownWinner =
  wPlayer :: PlayerID
  wValue :: HandValue
  wCards :: "Card list"

record ShowdownSummary =
  Winners :: "ShowdownWinner list"
  PayoutPer :: int64
  Remainder :: int64
  TotalPayout :: int64

text \<open>The local struct \<^verbatim>\<open>eval\<close>: \<^verbatim>\<open>(pid, val, cards)\<close>.\<close>

type_synonym eval = "PlayerID \<times> HandValue \<times> Card list"

text \<open>
  The loop that collects \<^verbatim>\<open>evals\<close>.  A missing entry of \<^verbatim>\<open>Holes\<close> reads as the nil
  slice.  \<open>None\<close> is a panic of \<^verbatim>\<open>BestHand7\<close>.
\<close>

fun evalLoop :: "State \<Rightarrow> PlayerID list \<Rightarrow> eval list \<Rightarrow> eval list option" where
  "evalLoop s [] evals = Some evals"
| "evalLoop s (pid # rest) evals =
     (case fmlookup (Seats s) pid of
        None \<Rightarrow> evalLoop s rest evals
      | Some st \<Rightarrow>
          if \<not> InHand st \<or> Folded st then evalLoop s rest evals
          else
            let hc = (case fmlookup (Holes s) pid of None \<Rightarrow> [] | Some h \<Rightarrow> h)
            in (case BestHand7 (Board s) hc of
                  None \<Rightarrow> None
                | Some (hv, five) \<Rightarrow> evalLoop s rest (evals @ [(pid, hv, five)])))"

definition bestValue :: "eval list \<Rightarrow> HandValue" where
  "bestValue evals =
     fold (\<lambda>e best. if Less best (fst (snd e)) then fst (snd e) else best)
       (tl evals) (fst (snd (hd evals)))"

definition winnersOf :: "eval list \<Rightarrow> ShowdownWinner list" where
  "winnersOf evals =
     (let best = bestValue evals
      in map (\<lambda>(pid, val, cards). \<lparr>wPlayer = pid, wValue = val, wCards = cards\<rparr>)
           (filter (\<lambda>e. \<not> Less best (fst (snd e)) \<and> \<not> Less (fst (snd e)) best) evals))"

text \<open>Go's \<^verbatim>\<open>/\<close> and \<^verbatim>\<open>%\<close> on \<^verbatim>\<open>int64\<close>, for a divisor that is not zero.\<close>

definition div64 :: "int64 \<Rightarrow> int64 \<Rightarrow> int64" where
  "div64 a b = word_of_int (sint a sdiv sint b)"

definition mod64 :: "int64 \<Rightarrow> int64 \<Rightarrow> int64" where
  "mod64 a b = word_of_int (sint a smod sint b)"

definition payWinners ::
  "int64 \<Rightarrow> ShowdownWinner list \<Rightarrow> (PlayerID, Seat) fmap \<Rightarrow> (PlayerID, Seat) fmap" where
  "payWinners per winners seats =
     fold (\<lambda>w m. case fmlookup m (wPlayer w) of
                    None \<Rightarrow> m
                  | Some st \<Rightarrow> fmupd (wPlayer w) (st\<lparr>Stack := Stack st + per\<rparr>) m)
       winners seats"

text \<open>\<^verbatim>\<open>winSet[w.Player] = i\<close> for every winner, a later one overwriting an earlier one.\<close>

definition winSetOf :: "ShowdownWinner list \<Rightarrow> (PlayerID, nat) fmap" where
  "winSetOf winners =
     fold (\<lambda>(i, w) m. fmupd (wPlayer w) i m) (zip [0..<length winners] winners) fmempty"

text \<open>
  The loop that hands out the remainder, over the indices \<^verbatim>\<open>(start+i) % len(s.Order)\<close> for
  \<^verbatim>\<open>i = 0, 1, ...\<close>; it stops as soon as \<^verbatim>\<open>rem > 0\<close> fails.  \<open>None\<close> is the panic of a
  negative index.
\<close>

fun remLoop ::
  "PlayerID list \<Rightarrow> ShowdownWinner list \<Rightarrow> (PlayerID, nat) fmap \<Rightarrow> int list \<Rightarrow> int64 \<Rightarrow>
   (PlayerID, Seat) fmap \<Rightarrow> (int64 \<times> (PlayerID, Seat) fmap) option" where
  "remLoop ord winners winSet [] rem seats = Some (rem, seats)"
| "remLoop ord winners winSet (k # ks) rem seats =
     (if \<not> 0 <s rem then Some (rem, seats)
      else
        (case index ord k of
           None \<Rightarrow> None
         | Some pid \<Rightarrow>
             (case fmlookup winSet pid of
                None \<Rightarrow> remLoop ord winners winSet ks rem seats
              | Some idx \<Rightarrow>
                  (case fmlookup seats (wPlayer (winners ! idx)) of
                     None \<Rightarrow> remLoop ord winners winSet ks rem seats
                   | Some st \<Rightarrow>
                       remLoop ord winners winSet ks (rem - 1)
                         (fmupd (wPlayer (winners ! idx)) (st\<lparr>Stack := Stack st + 1\<rparr>) seats)))))"

fun posLoop :: "PlayerID list \<Rightarrow> PlayerID \<Rightarrow> int \<Rightarrow> int" where
  "posLoop [] pid i = 2 ^ 30"
| "posLoop (q # rest) pid i = (if q = pid then i else posLoop rest pid (i + 1))"

definition posInOrder :: "PlayerID list \<Rightarrow> PlayerID \<Rightarrow> int" where
  "posInOrder order pid = posLoop order pid 0"

text \<open>\<^verbatim>\<open>ResolveShowdown\<close>; \<open>None\<close> is a panic.\<close>

definition ResolveShowdown :: "State \<Rightarrow> (ShowdownSummary \<times> State) option" where
  "ResolveShowdown s =
     (case evalLoop s (Order s) [] of
        None \<Rightarrow> None
      | Some evals \<Rightarrow>
          if length evals = 0 then
            let per = 0; rem = Pot s
            in Some (\<lparr>Winners = [], PayoutPer = per, Remainder = rem, TotalPayout = per + rem\<rparr>,
                     s\<lparr>Pot := 0, HandActive := False\<rparr>)
          else
            let winners = winnersOf evals;
                nw = (of_nat (length winners) :: int64);
                per = (if 0 <s Pot s \<and> 0 <s nw then div64 (Pot s) nw else 0);
                rem = (if 0 <s Pot s \<and> 0 <s nw then mod64 (Pot s) nw else 0);
                seats1 = payWinners per winners (Seats s);
                n = int (length (Order s));
                start = (DealerIdx s + 1) smod n
            in
              (case (if 0 <s rem
                     then remLoop (Order s) winners (winSetOf winners)
                            (map (\<lambda>i. (start + int i) smod n) [0..<length (Order s)]) rem seats1
                     else Some (rem, seats1)) of
                 None \<Rightarrow> None
               | Some (_, seats2) \<Rightarrow>
                   let total = per * nw + (Pot s - per * nw)
                   in Some (\<lparr>Winners = sort_key (\<lambda>w. posInOrder (Order s) (wPlayer w)) winners,
                             PayoutPer = per, Remainder = 0, TotalPayout = total\<rparr>,
                            s\<lparr>Seats := seats2, Pot := 0, HandActive := False\<rparr>)))"

subsection \<open>Chip total and example hands\<close>

text \<open>The chips on the table: every seat's stack, plus the pot.\<close>

definition stacksTotal :: "State \<Rightarrow> int64" where
  "stacksTotal s = (\<Sum>p \<in> fmdom' (Seats s). Stack (the (fmlookup (Seats s) p)))"

definition chips :: "State \<Rightarrow> int64" where
  "chips s = stacksTotal s + Pot s"

text \<open>
  Players \<^verbatim>\<open>A\<close> and \<^verbatim>\<open>B\<close> sit down with 1000 chips each at blinds 5/10 and a hand is
  started: \<^verbatim>\<open>B\<close> is the dealer and the big blind, \<^verbatim>\<open>A\<close> the small blind and first to act.
\<close>

definition exRand :: Rand where
  "exRand = (\<lambda>k. 0)"

definition exSeated :: State where
  "exSeated = snd (Sit ''B'' 1000 (snd (Sit ''A'' 1000 (NewState 5 10))))"

definition exDealt :: State where
  "exDealt = snd (StartHand exRand exSeated)"

text \<open>The same with 8 chips for \<^verbatim>\<open>A\<close>, who is left with 3 after the small blind.\<close>

definition exShort :: State where
  "exShort = snd (StartHand exRand (snd (Sit ''B'' 1000 (snd (Sit ''A'' 8 (NewState 5 10))))))"

text \<open>Both players fold, one after the other.\<close>

definition exAllFolded :: State where
  "exAllFolded = snd (Fold ''B'' (snd (Fold ''A'' exDealt)))"

text \<open>\<^verbatim>\<open>A\<close> calls before the flop; on the river \<^verbatim>\<open>A\<close> bets 10 and \<^verbatim>\<open>B\<close> calls.\<close>

definition exRiver :: State where
  "exRiver = snd (Call ''B'' (snd (Bet ''A'' 10
               (AdvancePhase (AdvancePhase (AdvancePhase (snd (Call ''A'' exDealt))))))))"

subsection \<open>Protocol messages (package protocol)\<close>

type_synonym NodeID = string
type_synonym TableID = string

text \<open>
  \<^verbatim>\<open>protocol.Epoch\<close> is declared outside the files at hand; \<^verbatim>\<open>main.go\<close> converts a
  \<^verbatim>\<open>uint64\<close> to it, and the table increments and compares it, so it is taken to be a
  \<^verbatim>\<open>uint64\<close>.
\<close>

type_synonym Epoch = uint64

record TableConfig =
  cfgName :: string
  cfgMinBuyin :: int64
  cfgSmallBlind :: int64
  cfgBigBlind :: int64
  cfgAuthorityTick :: int
  cfgFollowerTO :: int

datatype ActionType =
    ActCreateTable | ActJoin | ActLeave | ActStartHand | ActBet | ActCall | ActRaise
  | ActCheck | ActFold | ActKick | ActAdvance | ActShowdown
  | ActOther string  \<comment> \<open>any other string\<close>

text \<open>A value of \<^verbatim>\<open>map[string]any\<close>: only the assertion \<^verbatim>\<open>tv.(string)\<close> looks at it.\<close>

datatype MetaValue = MetaString string | MetaOther

record Action =
  aID :: string
  aType :: ActionType
  aPlayerID :: string
  aAmount :: int64
  aMeta :: "(string, MetaValue) fmap"

datatype MsgType =
    MsgPropose | MsgCommit | MsgSnapshot | MsgStateQuery | MsgHeartbeat
  | MsgOther string

text \<open>\<^verbatim>\<open>EngineJSON\<close> holds the bytes that \<^verbatim>\<open>encoding/json\<close> produced.\<close>

record TableSnapshot =
  tsCfg :: TableConfig
  tsSeq :: uint64
  tsEpoch :: Epoch
  tsAuthority :: NodeID
  tsEngineJSON :: string

record NetMessage =
  mTable :: TableID
  mFrom :: NodeID
  mType :: MsgType
  mEpoch :: Epoch
  mLamport :: uint64
  mSeq :: uint64
  mAction :: "Action option"
  mState :: "TableSnapshot option"

text \<open>\<^verbatim>\<open>Lamport.TickLocal\<close> and \<^verbatim>\<open>Lamport.TickRemote\<close>, on the counter's value.\<close>

definition TickLocal :: "uint64 \<Rightarrow> uint64" where
  "TickLocal v = v + 1"

definition TickRemote :: "uint64 \<Rightarrow> uint64 \<Rightarrow> uint64" where
  "TickRemote remote cur = (if remote \<ge> cur then remote + 1 else cur + 1)"

subsection \<open>The table replica (package table)\<close>

text \<open>
  The struct \<^verbatim>\<open>Table\<close>.  The channel \<^verbatim>\<open>netOut\<close> is the list of the messages sent on it,
  oldest first; \<^verbatim>\<open>clock\<close> is the value of the Lamport counter behind the pointer; the
  fields \<^verbatim>\<open>id\<close> and \<^verbatim>\<open>log\<close> are \<open>tableID\<close> and \<open>actLog\<close>; \<open>idPos\<close> counts the calls of
  \<^verbatim>\<open>protocol.RandActionID\<close> so far.  The map \<^verbatim>\<open>followers\<close> is never read or written.
\<close>

record Table =
  tableID :: TableID
  self :: NodeID
  cfg :: TableConfig
  authority :: bool
  epoch :: Epoch
  clock :: uint64
  netOut :: "NetMessage list"
  seq :: uint64
  actLog :: "Action list"
  dedup :: "string set"
  authorityID :: NodeID
  eng :: State
  lastHeartbeat :: int
  idPos :: nat

text \<open>
  What the table takes from the standard library.  From \<^verbatim>\<open>math/rand\<close>: the identifiers
  that successive calls of \<^verbatim>\<open>RandActionID\<close> return, and the generator that
  \<^verbatim>\<open>rand.New(rand.NewSource(seed))\<close> yields for the seed of an action id
  (\<^verbatim>\<open>seedFromActionID\<close>).  From \<^verbatim>\<open>encoding/json\<close>: the bytes that \<^verbatim>\<open>json.Marshal\<close> returns for
  an engine snapshot it can encode, and the result of \<^verbatim>\<open>json.Unmarshal\<close> into an engine
  snapshot, \<open>None\<close> when it returns an error.
\<close>

record Env =
  envIds :: "nat \<Rightarrow> string"
  envRand :: "string \<Rightarrow> Rand"
  envEncode :: "EngineSnapshot \<Rightarrow> string"
  envDecode :: "string \<Rightarrow> EngineSnapshot option"

definition emit :: "NetMessage \<Rightarrow> Table \<Rightarrow> Table" where
  "emit m t = t\<lparr>netOut := netOut t @ [m]\<rparr>"

text \<open>
  The calls that \<^verbatim>\<open>apply\<close> makes only to format its log lines can panic:
  \<^verbatim>\<open>CurrentPlayer\<close> on a turn index out of range, \<^verbatim>\<open>dealerOf\<close> and \<^verbatim>\<open>dealerTag\<close> on a
  dealer index out of range.
\<close>

definition dealerTagPanics :: "State \<Rightarrow> PlayerID \<Rightarrow> bool" where
  "dealerTagPanics s pid \<longleftrightarrow>
     \<not> (pid = [] \<or> length (Order s) = 0) \<and> index (Order s) (DealerIdx s) = None"

definition announcePanics :: "State \<Rightarrow> bool" where
  "announcePanics s =
     (case CurrentPlayer s of None \<Rightarrow> True | Some cur \<Rightarrow> dealerTagPanics s cur)"

definition announceStartPanics :: "State \<Rightarrow> bool" where
  "announceStartPanics s =
     (case CurrentPlayer s of
        None \<Rightarrow> True
      | Some cur \<Rightarrow>
          (length (Order s) \<noteq> 0 \<and> index (Order s) (DealerIdx s) = None)
          \<or> dealerTagPanics s cur)"

text \<open>
  The outcome of the \<^verbatim>\<open>switch\<close> of \<^verbatim>\<open>apply\<close>: a panic, the early \<^verbatim>\<open>return\<close> of an
  idempotent join, or the fall through with \<^verbatim>\<open>err\<close> and the three announce flags.
\<close>

datatype SwitchResult =
    Panicked
  | Return Table
  | Continue "error option" bool bool bool Table

text \<open>An engine call inside the switch: \<^verbatim>\<open>err = t.eng.Op(...)\<close> with \<^verbatim>\<open>announce = err == nil\<close>.\<close>

definition engineCall :: "bool \<Rightarrow> bool \<Rightarrow> Table \<Rightarrow> error option \<times> State \<Rightarrow> SwitchResult" where
  "engineCall aStart aTurn t r =
     (case r of
        (Some ErrPanic, _) \<Rightarrow> Panicked
      | (err, s) \<Rightarrow> Continue err (aStart \<and> err = None) False (aTurn \<and> err = None) (t\<lparr>eng := s\<rparr>))"

text \<open>The cases of the switch that do not call \<^verbatim>\<open>apply\<close> or \<^verbatim>\<open>commitAndBroadcast\<close>.\<close>

definition applySwitch :: "Env \<Rightarrow> Action \<Rightarrow> Table \<Rightarrow> SwitchResult" where
  "applySwitch env a t =
     (case aType a of
        ActCreateTable \<Rightarrow> Continue None False False False t
      | ActJoin \<Rightarrow>
          (case fmlookup (Seats (eng t)) (aPlayerID a) of
             Some _ \<Rightarrow> Return t
           | None \<Rightarrow> engineCall False False t (Sit (aPlayerID a) (cfgMinBuyin (cfg t)) (eng t)))
      | ActLeave \<Rightarrow> Continue None False False True (t\<lparr>eng := Leave (aPlayerID a) (eng t)\<rparr>)
      | ActKick \<Rightarrow>
          (case fmlookup (aMeta a) ''target'' of
             Some (MetaString target) \<Rightarrow>
               Continue None False False True (t\<lparr>eng := Leave target (eng t)\<rparr>)
           | _ \<Rightarrow> Continue None False False False t)
      | ActStartHand \<Rightarrow> engineCall True True t (StartHand (envRand env (aID a)) (eng t))
      | ActCheck \<Rightarrow> engineCall False True t (Check (aPlayerID a) (eng t))
      | ActFold \<Rightarrow> engineCall False True t (Fold (aPlayerID a) (eng t))
      | ActCall \<Rightarrow> engineCall False False t (Call (aPlayerID a) (eng t))
      | ActRaise \<Rightarrow>
          (case fmlookup (Seats (eng t)) (aPlayerID a) of
             None \<Rightarrow> Continue (Some (ErrOther ''unknown player'')) False False False t
           | Some st \<Rightarrow>
               let current = CurrentBet (eng t);
                   committed = Committed st;
                   to = aAmount a
               in
                 if to \<le>s current then engineCall False False t (Call (aPlayerID a) (eng t))
                 else
                   let additional = to - committed in
                   if additional \<le>s 0 then Continue None False False False t
                   else
                     let needCall = (if committed <s current then current - committed else 0);
                         raiseBy = additional - needCall
                     in
                       if raiseBy \<le>s 0
                       then engineCall False False t (Call (aPlayerID a) (eng t))
                       else engineCall False False t (Raise (aPlayerID a) raiseBy (eng t)))
      | ActBet \<Rightarrow> engineCall False False t (Bet (aPlayerID a) (aAmount a) (eng t))
      | ActAdvance \<Rightarrow> Continue None False True True (t\<lparr>eng := AdvancePhase (eng t)\<rparr>)
      | ActShowdown \<Rightarrow>
          (case ResolveShowdown (eng t) of
             None \<Rightarrow> Panicked
           | Some (sm, s) \<Rightarrow> Continue None False False False (t\<lparr>eng := s\<rparr>))
      | ActOther _ \<Rightarrow> Continue None False False False t)"

text \<open>The action that the authority synthesizes, with the next identifier of \<^verbatim>\<open>RandActionID\<close>.\<close>

definition synthAction :: "Env \<Rightarrow> ActionType \<Rightarrow> Table \<Rightarrow> Action" where
  "synthAction env ty t =
     \<lparr>aID = envIds env (idPos t), aType = ty, aPlayerID = self t, aAmount = 0, aMeta = fmempty\<rparr>"

definition commitMsg :: "Action \<Rightarrow> Table \<Rightarrow> NetMessage" where
  "commitMsg a t =
     \<lparr>mTable = tableID t, mFrom = self t, mType = MsgCommit, mEpoch = epoch t,
      mLamport = clock t, mSeq = seq t, mAction = Some a, mState = None\<rparr>"

text \<open>The rank of an action in the termination argument below.\<close>

definition actionRank :: "Action \<Rightarrow> nat" where
  "actionRank a =
     (case aType a of ActShowdown \<Rightarrow> 0 | ActAdvance \<Rightarrow> 1 | ActBet \<Rightarrow> 3 | _ \<Rightarrow> 2)"

text \<open>
  \<^verbatim>\<open>apply\<close> (named \<open>applyAction\<close>: \<open>apply\<close> is a keyword) and \<^verbatim>\<open>commitAndBroadcast\<close> call
  each other; \<open>None\<close> is a panic.  A bet on top of a bet is applied as a raise; an
  advance into the showdown makes the authority commit a showdown action; and whenever the
  round is closed after an action other than an advance, the authority commits an advance.
\<close>

function applyAction :: "Env \<Rightarrow> Action \<Rightarrow> Table \<Rightarrow> Table option"
  and commitAndBroadcast :: "Env \<Rightarrow> Action \<Rightarrow> Table \<Rightarrow> Table option"
where
  "applyAction env a t =
     (if aType a = ActBet \<and> CurrentBet (eng t) \<noteq> 0 then applyAction env (a\<lparr>aType := ActRaise\<rparr>) t
      else
        (case applySwitch env a t of
           Panicked \<Rightarrow> None
         | Return t1 \<Rightarrow> Some t1
         | Continue err aStart aPhase aTurn t1 \<Rightarrow>
             (case (if aType a = ActAdvance \<and> authority t1 \<and> Phase (eng t1) = PhaseShowdown
                    then map_option (\<lambda>t2. (False, t2))
                           (commitAndBroadcast env (synthAction env ActShowdown t1)
                              (t1\<lparr>idPos := idPos t1 + 1\<rparr>))
                    else Some (aTurn, t1)) of
                None \<Rightarrow> None
              | Some (aTurn2, t2) \<Rightarrow>
                  if err \<noteq> None then Some t2
                  else if (aStart \<and> announceStartPanics (eng t2))
                          \<or> ((aPhase \<or> aTurn2) \<and> announcePanics (eng t2)) then None
                  else if authority t2 \<and> HandActive (eng t2) \<and> RoundClosed (eng t2)
                          \<and> aType a \<noteq> ActAdvance
                  then commitAndBroadcast env (synthAction env ActAdvance t2)
                         (t2\<lparr>idPos := idPos t2 + 1\<rparr>)
                  else Some t2)))"
| "commitAndBroadcast env a t =
     (if aID a \<in> dedup t then Some t
      else
        (case applyAction env a (t\<lparr>seq := seq t + 1\<rparr>) of
           None \<Rightarrow> None
         | Some t1 \<Rightarrow>
             let t2 = t1\<lparr>actLog := actLog t1 @ [a], dedup := insert (aID a) (dedup t1)\<rparr>;
                 t3 = t2\<lparr>clock := TickLocal (clock t2)\<rparr>
             in Some (emit (commitMsg a t3) t3)))"
  by pat_completeness auto
termination
  apply (relation "measure (\<lambda>x. case x of
                           Inl (env, a, t) \<Rightarrow> 2 * actionRank a
                         | Inr (env, a, t) \<Rightarrow> 2 * actionRank a + 1)")
      apply (simp_all add: actionRank_def synthAction_def)
  subgoal premises prems for env a t err aStart aPhase aTurn t1 x2 aTurn2 t2
  proof -
    from prems have sw: "applySwitch env a t = Continue None aStart aPhase aTurn t1"
      and t2: "t2 = t1"
      and closed: "HandActive (eng t2)" "aType a \<noteq> ActAdvance"
      by auto
    have "aType a \<noteq> ActShowdown"
    proof
      assume "aType a = ActShowdown"
      with sw obtain sm where "ResolveShowdown (eng t) = Some (sm, eng t1)"
        by (auto simp: applySwitch_def split: option.splits)
      moreover have "\<not> HandActive s'" if "ResolveShowdown s = Some (sm, s')" for s sm s'
        using that by (auto simp: ResolveShowdown_def Let_def split: option.splits if_splits)
      ultimately have "\<not> HandActive (eng t1)" by blast
      with closed t2 show False by simp
    qed
    with closed show ?thesis by (cases "aType a") simp_all
  qed
  done

definition stateQueryMsg :: "Table \<Rightarrow> NetMessage" where
  "stateQueryMsg t =
     \<lparr>mTable = tableID t, mFrom = self t, mType = MsgStateQuery, mEpoch = epoch t,
      mLamport = clock t, mSeq = 0, mAction = None, mState = None\<rparr>"

definition applyCommit :: "Env \<Rightarrow> Action \<Rightarrow> uint64 \<Rightarrow> Table \<Rightarrow> Table option" where
  "applyCommit env a sq t =
     (if aID a \<in> dedup t then Some t
      else if sq \<noteq> seq t + 1 then
        let t1 = t\<lparr>clock := TickLocal (clock t)\<rparr> in Some (emit (stateQueryMsg t1) t1)
      else
        (case applyAction env a (t\<lparr>seq := sq\<rparr>) of
           None \<Rightarrow> None
         | Some t1 \<Rightarrow>
             Some (t1\<lparr>actLog := actLog t1 @ [a], dedup := insert (aID a) (dedup t1)\<rparr>)))"

text \<open>
  \<^verbatim>\<open>payload, _ := json.Marshal(es)\<close>: the call fails exactly when \<^verbatim>\<open>Card.MarshalJSON\<close> fails
  on a card of the board; the error is dropped and the payload is empty then.
\<close>

definition encodeEngine :: "Env \<Rightarrow> EngineSnapshot \<Rightarrow> string" where
  "encodeEngine env es =
     (if list_all (\<lambda>c. case MarshalJSON c of Inl _ \<Rightarrow> False | Inr _ \<Rightarrow> True) (ssBoard es)
      then envEncode env es else [])"

definition snapshot :: "Env \<Rightarrow> Table \<Rightarrow> TableSnapshot" where
  "snapshot env t =
     \<lparr>tsCfg = cfg t, tsSeq = seq t, tsEpoch = epoch t, tsAuthority = authorityID t,
      tsEngineJSON = encodeEngine env (Snapshot (eng t))\<rparr>"

definition installSnapshot :: "Env \<Rightarrow> TableSnapshot \<Rightarrow> Table \<Rightarrow> Table" where
  "installSnapshot env ss t =
     (let t1 = t\<lparr>cfg := tsCfg ss, seq := tsSeq ss, epoch := tsEpoch ss,
                 authorityID := tsAuthority ss\<rparr>;
          aligned = t1\<lparr>eng := (eng t1)\<lparr>SmallBlind := cfgSmallBlind (cfg t1),
                                        BigBlind := cfgBigBlind (cfg t1)\<rparr>\<rparr>
      in if length (tsEngineJSON ss) > 0 then
           (case envDecode env (tsEngineJSON ss) of
              Some es \<Rightarrow> t1\<lparr>eng := RestoreFromSnapshot (eng t1) es\<rparr>
            | None \<Rightarrow> aligned)
         else aligned)"

definition sendSnapshotTo :: "Env \<Rightarrow> NodeID \<Rightarrow> Table \<Rightarrow> Table" where
  "sendSnapshotTo env target t =
     (if \<not> authority t then t
      else
        let ss = snapshot env t;
            t1 = t\<lparr>clock := TickLocal (clock t)\<rparr>
        in emit \<lparr>mTable = tableID t1, mFrom = self t1, mType = MsgSnapshot, mEpoch = epoch t1,
                 mLamport = clock t1, mSeq = 0, mAction = None, mState = Some ss\<rparr> t1)"

definition sendHeartbeat :: "Table \<Rightarrow> Table" where
  "sendHeartbeat t =
     (if \<not> authority t then t
      else
        let t1 = t\<lparr>clock := TickLocal (clock t)\<rparr>
        in emit \<lparr>mTable = tableID t1, mFrom = self t1, mType = MsgHeartbeat, mEpoch = epoch t1,
                 mLamport = clock t1, mSeq = seq t1, mAction = None, mState = None\<rparr> t1)"

text \<open>
  \<^verbatim>\<open>onNet\<close>.  The argument \<open>now\<close> is what \<^verbatim>\<open>time.Now()\<close> returns, in nanoseconds;
  \<open>None\<close> is a panic inside \<^verbatim>\<open>apply\<close>.
\<close>

definition onNet :: "Env \<Rightarrow> int \<Rightarrow> NetMessage \<Rightarrow> Table \<Rightarrow> Table option" where
  "onNet env now msg t0 =
     (let t = t0\<lparr>clock := TickRemote (mLamport msg) (clock t0)\<rparr> in
      case mType msg of
        MsgPropose \<Rightarrow>
          if \<not> authority t then Some t
          else
            (case mAction msg of
               None \<Rightarrow> Some t
             | Some a \<Rightarrow>
                 if aType a = ActKick \<and> mFrom msg \<noteq> authorityID t then Some t
                 else commitAndBroadcast env a t)
      | MsgCommit \<Rightarrow>
          (case mAction msg of
             None \<Rightarrow> Some t
           | Some a \<Rightarrow>
               if mEpoch msg < epoch t then Some t
               else if aType a = ActKick \<and> mFrom msg \<noteq> authorityID t then Some t
               else
                 (case applyCommit env a (mSeq msg) t of
                    None \<Rightarrow> None
                  | Some t1 \<Rightarrow>
                      let t2 = (if mEpoch msg > epoch t1 \<or> authorityID t1 = []
                                then t1\<lparr>epoch := mEpoch msg, authorityID := mFrom msg\<rparr>
                                else t1)
                      in Some (t2\<lparr>lastHeartbeat := now\<rparr>)))
      | MsgSnapshot \<Rightarrow>
          (case mState msg of
             None \<Rightarrow> Some t
           | Some ss \<Rightarrow>
               if mEpoch msg < epoch t then Some t
               else Some ((installSnapshot env ss t)\<lparr>lastHeartbeat := now\<rparr>))
      | MsgHeartbeat \<Rightarrow>
          if mEpoch msg < epoch t then Some t
          else Some (t\<lparr>epoch := mEpoch msg, authorityID := mFrom msg, lastHeartbeat := now\<rparr>)
      | MsgStateQuery \<Rightarrow> if authority t then Some (sendSnapshotTo env (mFrom msg) t) else Some t
      | MsgOther _ \<Rightarrow> Some t)"

definition maxDur :: "int \<Rightarrow> int \<Rightarrow> int" where
  "maxDur a b = (if a > b then a else b)"

definition isSmallestNodeID :: "Table \<Rightarrow> bool" where
  "isSmallestNodeID t = (if authorityID t = [] then True else self t < authorityID t)"

definition tryAuthorityTakeover :: "Env \<Rightarrow> int \<Rightarrow> Table \<Rightarrow> Table" where
  "tryAuthorityTakeover env now t =
     (if authority t then t
      else if now - lastHeartbeat t < maxDur (cfgFollowerTO (cfg t)) 3000000000 then t
      else if \<not> isSmallestNodeID t then t
      else
        let t1 = t\<lparr>authority := True, epoch := epoch t + 1, authorityID := self t\<rparr>
        in sendSnapshotTo env [] (sendHeartbeat t1))"

text \<open>The constructor \<^verbatim>\<open>New\<close>; \<open>now\<close> is \<^verbatim>\<open>time.Now()\<close>, \<open>clk\<close> the value of the clock.\<close>

definition New ::
  "TableID \<Rightarrow> NodeID \<Rightarrow> TableConfig \<Rightarrow> bool \<Rightarrow> Epoch \<Rightarrow> uint64 \<Rightarrow> int \<Rightarrow> Table" where
  "New i slf c auth ep clk now =
     \<lparr>tableID = i, self = slf, cfg = c, authority = auth, epoch = ep, clock = clk,
      netOut = [], seq = 0, actLog = [], dedup = {},
      authorityID = (if auth then slf else []),
      eng = NewState (cfgSmallBlind c) (cfgBigBlind c), lastHeartbeat = now, idPos = 0\<rparr>"

text \<open>
  Two replica states that agree on the fields which neither \<^verbatim>\<open>apply\<close> nor
  \<^verbatim>\<open>commitAndBroadcast\<close> writes.
\<close>

definition sameReplica :: "Table \<Rightarrow> Table \<Rightarrow> bool" where
  "sameReplica t t' \<longleftrightarrow>
     epoch t' = epoch t \<and> authority t' = authority t \<and> authorityID t' = authorityID t
     \<and> self t' = self t \<and> tableID t' = tableID t \<and> cfg t' = cfg t
     \<and> lastHeartbeat t' = lastHeartbeat t"

subsection \<open>Example replicas and messages\<close>

definition exCfg :: TableConfig where
  "exCfg = \<lparr>cfgName = ''t'', cfgMinBuyin = 1000, cfgSmallBlind = 5, cfgBigBlind = 10,
            cfgAuthorityTick = 500000000, cfgFollowerTO = 3000000000\<rparr>"

definition exEnv :: Env where
  "exEnv = \<lparr>envIds = (\<lambda>n. ''a-'' @ replicate n CHR ''1''), envRand = (\<lambda>i. exRand),
            envEncode = (\<lambda>es. ''{}''), envDecode = (\<lambda>b. None)\<rparr>"

text \<open>A follower of node \<^verbatim>\<open>n1\<close> at epoch 3 that has applied five commits.\<close>

definition exFollower :: Table where
  "exFollower = (New ''t-1'' ''n2'' exCfg False 3 0 0)\<lparr>seq := 5, authorityID := ''n1''\<rparr>"

text \<open>An authority in the middle of the example hand: \<^verbatim>\<open>A\<close> is to act before the flop.\<close>

definition exAuthority :: Table where
  "exAuthority = (New ''t-1'' ''n1'' exCfg True 3 0 0)\<lparr>seq := 5, eng := exDealt\<rparr>"

definition exCommit :: "ActionType \<Rightarrow> string \<Rightarrow> uint64 \<Rightarrow> NetMessage" where
  "exCommit ty p sq =
     \<lparr>mTable = ''t-1'', mFrom = ''n1'', mType = MsgCommit, mEpoch = 3, mLamport = 7, mSeq = sq,
      mAction = Some \<lparr>aID = ''a-x'', aType = ty, aPlayerID = p, aAmount = 0, aMeta = fmempty\<rparr>,
      mState = None\<rparr>"

text \<open>A snapshot message whose envelope says epoch 5 and whose snapshot says epoch 1.\<close>

definition exSnapshotMsg :: NetMessage where
  "exSnapshotMsg =
     \<lparr>mTable = ''t-1'', mFrom = ''n1'', mType = MsgSnapshot, mEpoch = 5, mLamport = 7, mSeq = 0,
      mAction = None,
      mState = Some \<lparr>tsCfg = exCfg, tsSeq = 9, tsEpoch = 1, tsAuthority = ''n1'',
                      tsEngineJSON = []\<rparr>\<rparr>"

section \<open>Verified properties\<close>

subsection \<open>Card text encoding\<close>

lemmas card_eval = UnmarshalJSON_def TrimSpace_def is_space_def is_space2_def charToRank_def
  upper_byte_def
  lower_byte_def char_of_def bit_0 MarshalJSON_def rankToChar_def suitToChar_def

lemma rank_cases:
  fixes r :: byte
  assumes "2 \<le> r" and "r \<le> 14"
  shows "r = 2 \<or> r = 3 \<or> r = 4 \<or> r = 5 \<or> r = 6 \<or> r = 7 \<or> r = 8 \<or> r = 9 \<or> r = 10
         \<or> r = 11 \<or> r = 12 \<or> r = 13 \<or> r = 14"
proof -
  have "2 \<le> unat r" and "unat r \<le> 14"
    using assms by (simp_all add: word_le_nat_alt)
  then have "unat r = 2 \<or> unat r = 3 \<or> unat r = 4 \<or> unat r = 5 \<or> unat r = 6 \<or> unat r = 7
             \<or> unat r = 8 \<or> unat r = 9 \<or> unat r = 10 \<or> unat r = 11 \<or> unat r = 12
             \<or> unat r = 13 \<or> unat r = 14"
    by arith
  then show ?thesis by (simp add: word_unat_eq_iff)
qed

lemma suit_cases:
  fixes s :: byte
  assumes "s \<le> 3"
  shows "s = 0 \<or> s = 1 \<or> s = 2 \<or> s = 3"
proof -
  have "unat s \<le> 3" using assms by (simp add: word_le_nat_alt)
  then have "unat s = 0 \<or> unat s = 1 \<or> unat s = 2 \<or> unat s = 3" by arith
  then show ?thesis by (simp add: word_unat_eq_iff)
qed

lemma roundtrip_enum:
  assumes "r = 2 \<or> r = 3 \<or> r = 4 \<or> r = 5 \<or> r = 6 \<or> r = 7 \<or> r = 8 \<or> r = 9 \<or> r = 10
           \<or> r = 11 \<or> r = 12 \<or> r = 13 \<or> r = (14::byte)"
    and "s = 0 \<or> s = 1 \<or> s = 2 \<or> s = (3::byte)"
  shows "\<exists>rc sc. MarshalJSON \<lparr>Rank = r, Suit = s\<rparr> = Inr [rc, sc]
           \<and> rc \<in> set ''23456789TJQKA'' \<and> sc \<in> set ''cdhs''
           \<and> UnmarshalJSON [rc, sc] = Inr \<lparr>Rank = r, Suit = s\<rparr>
           \<and> UnmarshalJSON [lower_byte rc, sc] = Inr \<lparr>Rank = r, Suit = s\<rparr>
           \<and> UnmarshalJSON [rc, upper_byte sc] = Inr \<lparr>Rank = r, Suit = s\<rparr>
           \<and> UnmarshalJSON [lower_byte rc, upper_byte sc] = Inr \<lparr>Rank = r, Suit = s\<rparr>"
  using assms
  apply (elim disjE)
  apply (simp_all add: card_eval)
  done

text \<open>
  Claim C8.  For every valid card \<open>c\<close> (rank 2 to 14, suit clubs, diamonds, hearts or
  spades) the encoder emits two characters, an upper-case rank character out of
  \<^verbatim>\<open>23456789TJQKA\<close> followed by a lower-case suit character out of \<^verbatim>\<open>cdhs\<close>; parsing
  that text yields exactly \<open>c\<close>, and so does parsing it with the rank character in lower
  case, with the suit character in upper case, or with both.
\<close>

theorem card_text_roundtrip:
  fixes c :: Card
  assumes "2 \<le> Rank c" and "Rank c \<le> 14" and "Suit c \<le> 3"
  shows "\<exists>rc sc. MarshalJSON c = Inr [rc, sc]
           \<and> rc \<in> set ''23456789TJQKA'' \<and> sc \<in> set ''cdhs''
           \<and> UnmarshalJSON [rc, sc] = Inr c
           \<and> UnmarshalJSON [lower_byte rc, sc] = Inr c
           \<and> UnmarshalJSON [rc, upper_byte sc] = Inr c
           \<and> UnmarshalJSON [lower_byte rc, upper_byte sc] = Inr c"
proof -
  have c: "c = \<lparr>Rank = Rank c, Suit = Suit c\<rparr>" by simp
  show ?thesis
    using roundtrip_enum [OF rank_cases [OF assms(1,2)] suit_cases [OF assms(3)]]
    by (subst (1 2 3 4 5) c) simp
qed

theorem card_text_roundtrip_witness:
  "(2 :: byte) \<le> RankAce \<and> RankAce \<le> (14 :: byte) \<and> SuitSpades \<le> (3 :: byte)
   \<and> MarshalJSON \<lparr>Rank = RankAce, Suit = SuitSpades\<rparr> = Inr ''As''
   \<and> (\<exists>rc sc. MarshalJSON \<lparr>Rank = RankAce, Suit = SuitSpades\<rparr> = Inr [rc, sc]
        \<and> UnmarshalJSON [rc, sc] = Inr \<lparr>Rank = RankAce, Suit = SuitSpades\<rparr>
        \<and> UnmarshalJSON [lower_byte rc, upper_byte sc]
            = Inr \<lparr>Rank = RankAce, Suit = SuitSpades\<rparr>)"
  using card_text_roundtrip [of "\<lparr>Rank = RankAce, Suit = SuitSpades\<rparr>"]
  by (simp add: MarshalJSON_def rankToChar_def suitToChar_def)

subsection \<open>Engine snapshots\<close>

text \<open>
  Claim C9.  Restoring the snapshot of an engine state \<open>e\<close> into any engine state \<open>s0\<close>
  gives a state that agrees with \<open>e\<close> on the blinds, the dealer index, the order, the turn
  index, the phase, the pot, the board and the whole seat map.  The deck and the hole
  cards are not part of the snapshot: they stay those of \<open>s0\<close>.
\<close>

theorem snapshot_roundtrip:
  "SmallBlind (RestoreFromSnapshot s0 (Snapshot e)) = SmallBlind e
   \<and> BigBlind (RestoreFromSnapshot s0 (Snapshot e)) = BigBlind e
   \<and> DealerIdx (RestoreFromSnapshot s0 (Snapshot e)) = DealerIdx e
   \<and> Order (RestoreFromSnapshot s0 (Snapshot e)) = Order e
   \<and> TurnIdx (RestoreFromSnapshot s0 (Snapshot e)) = TurnIdx e
   \<and> Phase (RestoreFromSnapshot s0 (Snapshot e)) = Phase e
   \<and> Pot (RestoreFromSnapshot s0 (Snapshot e)) = Pot e
   \<and> Board (RestoreFromSnapshot s0 (Snapshot e)) = Board e
   \<and> Seats (RestoreFromSnapshot s0 (Snapshot e)) = Seats e
   \<and> Deck (RestoreFromSnapshot s0 (Snapshot e)) = Deck s0
   \<and> Holes (RestoreFromSnapshot s0 (Snapshot e)) = Holes s0"
  by (simp add: RestoreFromSnapshot_def Snapshot_def)

subsection \<open>Evaluation of the example hands\<close>

declare Raise.simps [simp del]

lemma length_shuffle: "length (shuffle r k i deck) = length deck"
  by (induction i arbitrary: k deck) (simp_all add: Let_def)

lemma length_NewDeck: "length (NewDeck r) = 52"
  by (simp add: NewDeck_def length_shuffle freshDeck_def length_concat comp_def sum_list_triv)

lemmas engine_eval = StartHand_def NewState_def Sit_def sortOrder_def Let_def index_def
  postBlind_def signed_modulo_int_def countNeedToAct_def eligible_def length_NewDeck
  CurrentPlayer_def ensureTurn_def advanceTurn_def advanceTurnOk_def Fold_def Call_def Check_def
  Bet_def AdvancePhase_def resetCommittedAndSetTurnFromDealer_def
  word_sle_eq word_sless_alt fmmap_fmupd

lemma exDealt_eq:
  "exDealt =
     \<lparr>SmallBlind = 5, BigBlind = 10, DealerIdx = 1, Order = [''A'', ''B''],
        TurnIdx = 0, Phase = 0, Pot = 15,
        Seats =
          fmupd ''B''
           \<lparr>Player = ''B'', Stack = 990, Committed = 10, InHand = True,
              AllIn = False, Folded = False\<rparr>
           (fmupd ''A''
             \<lparr>Player = ''A'', Stack = 995, Committed = 5, InHand = True,
                AllIn = False, Folded = False\<rparr>
             (fmupd ''B''
               \<lparr>Player = ''B'', Stack = 1000, Committed = 0, InHand = True,
                  AllIn = False, Folded = False\<rparr>
               (fmupd ''A''
                 \<lparr>Player = ''A'', Stack = 1000, Committed = 0, InHand = True,
                    AllIn = False, Folded = False\<rparr>
                 fmempty))),
        Deck = drop 4 (NewDeck exRand), Board = [],
        Holes =
          fmupd ''B'' [NewDeck exRand ! 2, NewDeck exRand ! 3]
           (fmupd ''A'' [NewDeck exRand ! 0, NewDeck exRand ! Suc 0]
             fmempty),
        CurrentBet = 10, ActorsToAct = 1, LastRaiseSize = 10,
        HandActive = True\<rparr>"
  by (simp add: exDealt_def exSeated_def engine_eval)

lemma exShort_eq:
  "exShort =
     \<lparr>SmallBlind = 5, BigBlind = 10, DealerIdx = 1, Order = [''A'', ''B''],
        TurnIdx = 0, Phase = 0, Pot = 15,
        Seats =
          fmupd ''B''
           \<lparr>Player = ''B'', Stack = 990, Committed = 10, InHand = True,
              AllIn = False, Folded = False\<rparr>
           (fmupd ''A''
             \<lparr>Player = ''A'', Stack = 3, Committed = 5, InHand = True,
                AllIn = False, Folded = False\<rparr>
             (fmupd ''B''
               \<lparr>Player = ''B'', Stack = 1000, Committed = 0, InHand = True,
                  AllIn = False, Folded = False\<rparr>
               (fmupd ''A''
                 \<lparr>Player = ''A'', Stack = 8, Committed = 0, InHand = True,
                    AllIn = False, Folded = False\<rparr>
                 fmempty))),
        Deck = drop 4 (NewDeck exRand), Board = [],
        Holes =
          fmupd ''B'' [NewDeck exRand ! 2, NewDeck exRand ! 3]
           (fmupd ''A'' [NewDeck exRand ! 0, NewDeck exRand ! Suc 0]
             fmempty),
        CurrentBet = 10, ActorsToAct = 1, LastRaiseSize = 10,
        HandActive = True\<rparr>"
  by (simp add: exShort_def engine_eval)

lemma exAllFolded_eq:
  "exAllFolded =
     \<lparr>SmallBlind = 5, BigBlind = 10, DealerIdx = 1, Order = [''A'', ''B''],
        TurnIdx = 1, Phase = 0, Pot = 15,
        Seats =
          fmupd ''B''
           \<lparr>Player = ''B'', Stack = 990, Committed = 10, InHand = False,
              AllIn = False, Folded = True\<rparr>
           (fmupd ''A''
             \<lparr>Player = ''A'', Stack = 995, Committed = 5, InHand = False,
                AllIn = False, Folded = True\<rparr>
             (Seats exDealt)),
        Deck = drop 4 (NewDeck exRand), Board = [],
        Holes = Holes exDealt,
        CurrentBet = 10, ActorsToAct = 0, LastRaiseSize = 10,
        HandActive = True\<rparr>"
  by (simp add: exAllFolded_def exDealt_eq engine_eval)

lemma exRiver_eq:
  "exRiver =
     \<lparr>SmallBlind = 5, BigBlind = 10, DealerIdx = 1, Order = [''A'', ''B''],
        TurnIdx = 0, Phase = 3, Pot = 40,
        Seats =
          fmupd ''B''
           \<lparr>Player = ''B'', Stack = 980, Committed = 10, InHand = True,
              AllIn = False, Folded = False\<rparr>
           (fmupd ''A''
             \<lparr>Player = ''A'', Stack = 980, Committed = 10, InHand = True,
                AllIn = False, Folded = False\<rparr>
             (fmupd ''B''
               \<lparr>Player = ''B'', Stack = 990, Committed = 0, InHand = True,
                  AllIn = False, Folded = False\<rparr>
               (fmupd ''A''
                 \<lparr>Player = ''A'', Stack = 995, Committed = 0, InHand = True,
                    AllIn = False, Folded = False\<rparr>
                 (fmupd ''B''
                   \<lparr>Player = ''B'', Stack = 1000, Committed = 0,
                      InHand = True, AllIn = False, Folded = False\<rparr>
                   (fmupd ''A''
                     \<lparr>Player = ''A'', Stack = 1000, Committed = 0,
                        InHand = True, AllIn = False, Folded = False\<rparr>
                     fmempty))))),
        Deck = drop 9 (NewDeck exRand),
        Board =
          take 3 (drop 4 (NewDeck exRand)) @
          [NewDeck exRand ! 7, NewDeck exRand ! 8],
        Holes =
          fmupd ''B'' [NewDeck exRand ! 2, NewDeck exRand ! 3]
           (fmupd ''A'' [NewDeck exRand ! 0, NewDeck exRand ! Suc 0]
             fmempty),
        CurrentBet = 10, ActorsToAct = 0, LastRaiseSize = 10,
        HandActive = True\<rparr>"
  by (simp add: exRiver_def exDealt_eq engine_eval)

subsection \<open>Showdown when nobody is left in the hand\<close>

lemma evalLoop_none_in_hand:
  assumes "\<forall>p st. fmlookup (Seats s) p = Some st \<longrightarrow> \<not> (InHand st \<and> \<not> Folded st)"
  shows "evalLoop s ord evals = Some evals"
  using assms by (induction ord) (auto split: option.splits)

text \<open>
  Claim C10.  When no seat is both in the hand and not folded, \<^verbatim>\<open>ResolveShowdown\<close> returns
  no winners, sets the pot to 0 and \<^verbatim>\<open>HandActive\<close> to false, leaves every seat (hence
  every stack) as it was, and reports the whole prior pot as the summary's \<^verbatim>\<open>Remainder\<close>:
  the pot is dropped, not paid to anyone.
\<close>

theorem showdown_without_contenders:
  assumes "\<forall>p st. fmlookup (Seats s) p = Some st \<longrightarrow> \<not> (InHand st \<and> \<not> Folded st)"
  shows "ResolveShowdown s =
           Some (\<lparr>Winners = [], PayoutPer = 0, Remainder = Pot s, TotalPayout = Pot s\<rparr>,
                 s\<lparr>Pot := 0, HandActive := False\<rparr>)"
  by (simp add: ResolveShowdown_def Let_def evalLoop_none_in_hand [OF assms])

theorem showdown_without_contenders_witness:
  "map_option Folded (fmlookup (Seats exAllFolded) ''A'') = Some True
   \<and> map_option Folded (fmlookup (Seats exAllFolded) ''B'') = Some True
   \<and> fmdom' (Seats exAllFolded) = {''A'', ''B''}
   \<and> Pot exAllFolded = 15
   \<and> ResolveShowdown exAllFolded =
       Some (\<lparr>Winners = [], PayoutPer = 0, Remainder = 15, TotalPayout = 15\<rparr>,
             exAllFolded\<lparr>Pot := 0, HandActive := False\<rparr>)"
proof -
  have h: "\<forall>p st. fmlookup (Seats exAllFolded) p = Some st \<longrightarrow> \<not> (InHand st \<and> \<not> Folded st)"
    by (auto simp: exAllFolded_eq exDealt_eq split: if_splits)
  have p: "Pot exAllFolded = 15"
    "map_option Folded (fmlookup (Seats exAllFolded) ''A'') = Some True"
    "map_option Folded (fmlookup (Seats exAllFolded) ''B'') = Some True"
    by (simp_all add: exAllFolded_eq)
  have d: "fmdom' (Seats exAllFolded) = {''A'', ''B''}"
    by (auto simp: exAllFolded_eq exDealt_eq)
  show ?thesis using p d showdown_without_contenders [OF h] by simp
qed

subsection \<open>Chip conservation\<close>

text \<open>
  Claim C2 says that the stacks plus the pot stay equal to the stacks at the start of the
  hand, over every sequence of successful engine operations.  The engine lets the last
  player fold as well, and \<^verbatim>\<open>ResolveShowdown\<close> then drops the pot.  Here \<^verbatim>\<open>A\<close> and \<^verbatim>\<open>B\<close>
  sit down with 1000 chips each, the hand starts (2000 chips on the table), \<^verbatim>\<open>A\<close> folds,
  \<^verbatim>\<open>B\<close> folds, every call succeeds, and after the showdown only 1985 chips are left.
\<close>

theorem chips_lost_when_all_fold:
  "fst (Sit ''A'' 1000 (NewState 5 10)) = None
   \<and> fst (Sit ''B'' 1000 (snd (Sit ''A'' 1000 (NewState 5 10)))) = None
   \<and> stacksTotal exSeated = 2000
   \<and> fst (StartHand exRand exSeated) = None
   \<and> chips exDealt = 2000
   \<and> fst (Fold ''A'' exDealt) = None
   \<and> fst (Fold ''B'' (snd (Fold ''A'' exDealt))) = None
   \<and> chips exAllFolded = 2000
   \<and> map_option (Winners \<circ> fst) (ResolveShowdown exAllFolded) = Some []
   \<and> map_option (chips \<circ> snd) (ResolveShowdown exAllFolded) = Some 1985"
proof -
  have h: "\<forall>p st. fmlookup (Seats exAllFolded) p = Some st \<longrightarrow> \<not> (InHand st \<and> \<not> Folded st)"
    by (auto simp: exAllFolded_eq exDealt_eq split: if_splits)
  have a: "fst (Sit ''A'' 1000 (NewState 5 10)) = None"
    "fst (Sit ''B'' 1000 (snd (Sit ''A'' 1000 (NewState 5 10)))) = None"
    by (simp_all add: engine_eval)
  have b: "stacksTotal exSeated = 2000"
    by (simp add: stacksTotal_def exSeated_def engine_eval)
  have c: "fst (StartHand exRand exSeated) = None"
    by (simp add: exSeated_def engine_eval)
  have dom1: "fmdom' (Seats exDealt) = {''A'', ''B''}"
    by (auto simp: exDealt_eq)
  have d: "chips exDealt = 2000"
    by (simp add: chips_def stacksTotal_def dom1) (simp add: exDealt_eq)
  have e: "fst (Fold ''A'' exDealt) = None" "fst (Fold ''B'' (snd (Fold ''A'' exDealt))) = None"
    by (simp_all add: exDealt_eq engine_eval)
  have dom2: "fmdom' (Seats exAllFolded) = {''A'', ''B''}"
    by (auto simp: exAllFolded_eq dom1)
  have f: "chips exAllFolded = 2000"
    by (simp add: chips_def stacksTotal_def dom2) (simp add: exAllFolded_eq)
  have g: "map_option (Winners \<circ> fst) (ResolveShowdown exAllFolded) = Some []"
    "map_option (chips \<circ> snd) (ResolveShowdown exAllFolded) = Some 1985"
    by (simp_all add: ResolveShowdown_def Let_def evalLoop_none_in_hand [OF h] chips_def
        stacksTotal_def dom2)
       (simp add: exAllFolded_eq)
  show ?thesis using a b c d e f g by simp
qed

subsection \<open>Call\<close>

lemma advanceTurnLoop_fields:
  "advanceTurnLoop k s = Some s' \<Longrightarrow> s' = s\<lparr>TurnIdx := TurnIdx s'\<rparr>"
proof (induction k arbitrary: s)
  case 0
  then show ?case by simp
next
  case (Suc k)
  then show ?case
    by (auto simp: Let_def split: option.splits if_splits dest!: Suc.IH)
qed

lemma advanceTurn_fields: "advanceTurn s = Some s' \<Longrightarrow> s' = s\<lparr>TurnIdx := TurnIdx s'\<rparr>"
  by (auto simp: advanceTurn_def split: if_splits dest: advanceTurnLoop_fields)

lemma advanceTurn_TurnIdx_irrelevant:
  assumes "advanceTurn s = Some s'"
  shows "advanceTurn (s'\<lparr>TurnIdx := TurnIdx s\<rparr>) = Some s'"
proof -
  obtain t where "s' = s\<lparr>TurnIdx := t\<rparr>"
    using advanceTurn_fields [OF assms] by blast
  then have "s'\<lparr>TurnIdx := TurnIdx s\<rparr> = s" by simp
  with assms show ?thesis by simp
qed

lemma advanceTurnOk_cases:
  assumes "advanceTurnOk s1 = (e, s')"
  shows "(e = None \<or> e = Some ErrPanic)
         \<and> advanceTurnOk (s'\<lparr>TurnIdx := TurnIdx s1\<rparr>) = (e, s')
         \<and> s' = s1\<lparr>TurnIdx := TurnIdx s'\<rparr>"
proof (cases "advanceTurn s1")
  case None
  with assms have "e = Some ErrPanic" and "s' = s1"
    by (simp_all add: advanceTurnOk_def)
  with None show ?thesis by (simp add: advanceTurnOk_def)
next
  case (Some s2)
  with assms have e: "e = None" and s2: "s' = s2"
    by (simp_all add: advanceTurnOk_def)
  from Some s2 have "advanceTurn s1 = Some s'" by simp
  from advanceTurn_TurnIdx_irrelevant [OF this] advanceTurn_fields [OF this] e
  show ?thesis by (simp add: advanceTurnOk_def)
qed

lemma eligible_TurnIdx [simp]: "eligible (s\<lparr>TurnIdx := t\<rparr>) q = eligible s q"
  by (simp add: eligible_def)

lemma advanceTurnLoop_walk:
  assumes "advanceTurnLoop k s = Some s'"
    and "N = int (length (Order s))" and "0 \<le> TurnIdx s" and "TurnIdx s < N"
  shows "(\<exists>i. 1 \<le> i \<and> i \<le> int k \<and> TurnIdx s' = (TurnIdx s + i) mod N
            \<and> eligible s (Order s ! nat (TurnIdx s'))
            \<and> (\<forall>j. 1 \<le> j \<and> j < i \<longrightarrow> \<not> eligible s (Order s ! nat ((TurnIdx s + j) mod N))))
         \<or> (TurnIdx s' = (TurnIdx s + int k) mod N
            \<and> (\<forall>j. 1 \<le> j \<and> j \<le> int k \<longrightarrow> \<not> eligible s (Order s ! nat ((TurnIdx s + j) mod N))))"
  using assms
proof (induction k arbitrary: s)
  case 0
  then have "s' = s" by simp
  with 0 show ?case by (intro disjI2) auto
next
  case (Suc k)
  define t1 where "t1 = (TurnIdx s + 1) mod N"
  define s1 where "s1 = s\<lparr>TurnIdx := t1\<rparr>"
  have Npos: "0 < N" using Suc.prems(3,4) by linarith
  have sm: "(TurnIdx s + 1) smod int (length (Order s)) = t1"
    using Suc.prems(2-4) Npos by (simp add: t1_def signed_modulo_int_def sgn_if)
  have t1: "0 \<le> t1" "t1 < N" using Npos by (simp_all add: t1_def)
  then have ix: "index (Order s1) (TurnIdx s1) = Some (Order s ! nat t1)"
    using Suc.prems(2-4) by (simp add: index_def s1_def)
  have unf: "advanceTurnLoop (Suc k) s =
      (case fmlookup (Seats s) (Order s ! nat t1) of
         None \<Rightarrow> None
       | Some st \<Rightarrow> if InHand st \<and> \<not> Folded st \<and> \<not> AllIn st then Some s1
                    else advanceTurnLoop k s1)"
    using ix unfolding s1_def by (simp add: Let_def sm)
  from Suc.prems(1) obtain st where
    seat: "fmlookup (Seats s) (Order s ! nat t1) = Some st"
    and r: "(if InHand st \<and> \<not> Folded st \<and> \<not> AllIn st then Some s1 else advanceTurnLoop k s1) = Some s'"
    unfolding unf by (cases "fmlookup (Seats s) (Order s ! nat t1)") auto
  have el: "eligible s (Order s ! nat t1) \<longleftrightarrow> InHand st \<and> \<not> Folded st \<and> \<not> AllIn st"
    using seat by (simp add: eligible_def)
  show ?case
  proof (cases "eligible s (Order s ! nat t1)")
    case True
    with r el have "s' = s1" by (auto split: if_splits)
    then have "TurnIdx s' = (TurnIdx s + 1) mod N" by (simp add: s1_def t1_def)
    moreover have "eligible s (Order s ! nat (TurnIdx s'))"
      using True \<open>s' = s1\<close> by (simp add: s1_def)
    ultimately show ?thesis
      by (intro disjI1 exI [of _ 1]) auto
  next
    case False
    with r el have rec: "advanceTurnLoop k s1 = Some s'" by (auto split: if_splits)
    have sh: "(t1 + j) mod N = (TurnIdx s + (j + 1)) mod N" for j
      by (simp add: t1_def mod_simps add.commute add.left_commute)
    have IH: "(\<exists>i. 1 \<le> i \<and> i \<le> int k \<and> TurnIdx s' = (t1 + i) mod N
            \<and> eligible s (Order s ! nat (TurnIdx s'))
            \<and> (\<forall>j. 1 \<le> j \<and> j < i \<longrightarrow> \<not> eligible s (Order s ! nat ((t1 + j) mod N))))
         \<or> (TurnIdx s' = (t1 + int k) mod N
            \<and> (\<forall>j. 1 \<le> j \<and> j \<le> int k \<longrightarrow> \<not> eligible s (Order s ! nat ((t1 + j) mod N))))"
      using Suc.IH [OF rec] Suc.prems(2-4) t1 by (simp add: s1_def)
    have first: "\<not> eligible s (Order s ! nat ((TurnIdx s + 1) mod N))"
      using False by (simp add: t1_def)
    have step: "\<not> eligible s (Order s ! nat ((TurnIdx s + j) mod N))"
      if "1 \<le> j" and "\<forall>j'. 1 \<le> j' \<and> j' < b \<longrightarrow> \<not> eligible s (Order s ! nat ((t1 + j') mod N))"
        and "j < b + 1" for j b
    proof (cases "j = 1")
      case True
      with first show ?thesis by simp
    next
      case False
      with that have "1 \<le> j - 1 \<and> j - 1 < b" by simp
      with that(2) have "\<not> eligible s (Order s ! nat ((t1 + (j - 1)) mod N))" by blast
      then show ?thesis by (simp add: sh)
    qed
    from IH show ?thesis
    proof
      assume "\<exists>i. 1 \<le> i \<and> i \<le> int k \<and> TurnIdx s' = (t1 + i) mod N
            \<and> eligible s (Order s ! nat (TurnIdx s'))
            \<and> (\<forall>j. 1 \<le> j \<and> j < i \<longrightarrow> \<not> eligible s (Order s ! nat ((t1 + j) mod N)))"
      then obtain i where i: "1 \<le> i" "i \<le> int k" "TurnIdx s' = (t1 + i) mod N"
        "eligible s (Order s ! nat (TurnIdx s'))"
        "\<forall>j. 1 \<le> j \<and> j < i \<longrightarrow> \<not> eligible s (Order s ! nat ((t1 + j) mod N))"
        by blast
      have "\<forall>j. 1 \<le> j \<and> j < i + 1 \<longrightarrow> \<not> eligible s (Order s ! nat ((TurnIdx s + j) mod N))"
        using step [OF _ i(5)] by blast
      with i show ?thesis
        by (intro disjI1 exI [of _ "i + 1"]) (simp add: sh)
    next
      assume a: "TurnIdx s' = (t1 + int k) mod N
            \<and> (\<forall>j. 1 \<le> j \<and> j \<le> int k \<longrightarrow> \<not> eligible s (Order s ! nat ((t1 + j) mod N)))"
      then have b: "\<forall>j. 1 \<le> j \<and> j < int k + 1 \<longrightarrow> \<not> eligible s (Order s ! nat ((t1 + j) mod N))"
        by simp
      have "\<forall>j. 1 \<le> j \<and> j \<le> int (Suc k) \<longrightarrow> \<not> eligible s (Order s ! nat ((TurnIdx s + j) mod N))"
        using step [OF _ b] by simp
      with a show ?thesis by (intro disjI2) (simp add: sh add.commute)
    qed
  qed
qed

lemma advanceTurnLoop_panic:
  assumes "advanceTurnLoop k s = None"
    and "0 \<le> TurnIdx s" and "TurnIdx s < int (length (Order s))"
  shows "\<exists>q\<in>set (Order s). fmlookup (Seats s) q = None"
  using assms
proof (induction k arbitrary: s)
  case 0
  then show ?case by simp
next
  case (Suc k)
  define N where "N = int (length (Order s))"
  define t1 where "t1 = (TurnIdx s + 1) mod N"
  define s1 where "s1 = s\<lparr>TurnIdx := t1\<rparr>"
  have Npos: "0 < N" using Suc.prems(2,3) unfolding N_def by linarith
  have sm: "(TurnIdx s + 1) smod int (length (Order s)) = t1"
    using Suc.prems(2,3) Npos by (simp add: t1_def N_def signed_modulo_int_def sgn_if)
  have t1: "0 \<le> t1" "t1 < N" using Npos by (simp_all add: t1_def)
  then have ix: "index (Order s1) (TurnIdx s1) = Some (Order s ! nat t1)"
    by (simp add: index_def s1_def N_def)
  have mem: "Order s ! nat t1 \<in> set (Order s)"
    using t1 by (simp add: N_def)
  have unf: "advanceTurnLoop (Suc k) s =
      (case fmlookup (Seats s) (Order s ! nat t1) of
         None \<Rightarrow> None
       | Some st \<Rightarrow> if InHand st \<and> \<not> Folded st \<and> \<not> AllIn st then Some s1
                    else advanceTurnLoop k s1)"
    using ix unfolding s1_def by (simp add: Let_def sm)
  show ?case
  proof (cases "fmlookup (Seats s) (Order s ! nat t1)")
    case None
    with mem show ?thesis by blast
  next
    case (Some st)
    with Suc.prems(1) have "advanceTurnLoop k s1 = None"
      unfolding unf by (auto split: if_splits)
    from Suc.IH [OF this] t1 show ?thesis by (simp add: s1_def N_def)
  qed
qed

lemma walk_covers:
  fixes t N :: int
  assumes "0 \<le> t" and "t < N" and "0 \<le> i" and "i < N"
  shows "\<exists>j. 1 \<le> j \<and> j \<le> N \<and> (t + j) mod N = i"
proof (cases "i = t")
  case True
  with assms show ?thesis by (intro exI [of _ N]) simp
next
  case False
  define j where "j = (i - t) mod N"
  have N: "0 < N" using assms by linarith
  have "j \<noteq> 0"
  proof
    assume "j = 0"
    then have d: "N dvd (i - t)" by (simp add: j_def mod_eq_0_iff_dvd)
    from False have "i - t \<noteq> 0" by simp
    from dvd_imp_le_int [OF this d] have "\<bar>N\<bar> \<le> \<bar>i - t\<bar>" .
    with assms show False by linarith
  qed
  moreover have "0 \<le> j" "j < N" using N by (simp_all add: j_def)
  moreover have "(t + j) mod N = i"
    using assms by (simp add: j_def mod_simps)
  ultimately show ?thesis by (intro exI [of _ j]) simp
qed

lemma advanceTurnOk_walk:
  assumes r: "advanceTurnOk s1 = (e, s')" and cp: "CurrentPlayer s1 = Some p"
  shows "(e = Some ErrPanic \<longrightarrow> (\<exists>q\<in>set (Order s1). fmlookup (Seats s1) q = None))
       \<and> (e = None \<longrightarrow>
            (\<exists>k. 1 \<le> k \<and> k \<le> int (length (Order s1))
                 \<and> TurnIdx s' = (TurnIdx s1 + k) mod int (length (Order s1))
                 \<and> eligible s' (Order s1 ! nat (TurnIdx s'))
                 \<and> (\<forall>j. 1 \<le> j \<and> j < k \<longrightarrow>
                        \<not> eligible s' (Order s1 ! nat ((TurnIdx s1 + j) mod int (length (Order s1))))))
            \<or> (TurnIdx s' = TurnIdx s1 \<and> (\<forall>q\<in>set (Order s1). \<not> eligible s' q)))"
proof (cases "length (Order s1) = 0")
  case True
  with r show ?thesis by (auto simp: advanceTurnOk_def advanceTurn_def)
next
  case False
  define N where "N = int (length (Order s1))"
  from cp False have b: "0 \<le> TurnIdx s1" "TurnIdx s1 < N"
    by (auto simp: CurrentPlayer_def index_def N_def split: if_splits)
  have at: "advanceTurn s1 = advanceTurnLoop (length (Order s1)) s1"
    using False by (simp add: advanceTurn_def)
  show ?thesis
  proof (cases "advanceTurnLoop (length (Order s1)) s1")
    case None
    with r at have "e = Some ErrPanic" by (simp add: advanceTurnOk_def)
    with advanceTurnLoop_panic [OF None b(1) b(2) [unfolded N_def]] show ?thesis by simp
  next
    case (Some s2)
    with r at have e: "e = None" and s2: "s2 = s'" by (simp_all add: advanceTurnOk_def)
    from advanceTurnLoop_fields [OF Some] s2 have f: "s' = s1\<lparr>TurnIdx := TurnIdx s'\<rparr>" by simp
    have el: "eligible s' q = eligible s1 q" for q
      by (subst f) simp
    from advanceTurnLoop_walk [OF Some [unfolded s2] N_def b]
    show ?thesis
    proof
      assume "\<exists>i. 1 \<le> i \<and> i \<le> int (length (Order s1)) \<and> TurnIdx s' = (TurnIdx s1 + i) mod N
            \<and> eligible s1 (Order s1 ! nat (TurnIdx s'))
            \<and> (\<forall>j. 1 \<le> j \<and> j < i \<longrightarrow> \<not> eligible s1 (Order s1 ! nat ((TurnIdx s1 + j) mod N)))"
      with e show ?thesis by (simp add: el N_def)
    next
      assume a: "TurnIdx s' = (TurnIdx s1 + int (length (Order s1))) mod N
            \<and> (\<forall>j. 1 \<le> j \<and> j \<le> int (length (Order s1)) \<longrightarrow>
                   \<not> eligible s1 (Order s1 ! nat ((TurnIdx s1 + j) mod N)))"
      then have t: "TurnIdx s' = TurnIdx s1" using b by (simp add: N_def)
      have "\<not> eligible s1 q" if "q \<in> set (Order s1)" for q
      proof -
        from that obtain i where i: "i < length (Order s1)" "Order s1 ! i = q"
          by (auto simp: in_set_conv_nth)
        then have "0 \<le> int i" "int i < N" by (simp_all add: N_def)
        from walk_covers [OF b this] obtain j where
          j: "1 \<le> j" "j \<le> N" "(TurnIdx s1 + j) mod N = int i" by blast
        with a have "\<not> eligible s1 (Order s1 ! nat (int i))" by (auto simp: N_def)
        with i show ?thesis by simp
      qed
      with t e show ?thesis by (simp add: el)
    qed
  qed
qed

lemma ensureTurn_iff: "ensureTurn p s = None \<longleftrightarrow> CurrentPlayer s = Some p"
  by (auto simp: ensureTurn_def split: option.splits)

text \<open>
  Claim C5.  It is \<open>p\<close>'s turn, \<open>p\<close> has a seat, the current bet is positive and \<open>p\<close> is
  behind it by \<open>need = CurrentBet - Committed > 0\<close>.  If the stack covers \<open>need\<close>, \<^verbatim>\<open>Call\<close>
  moves exactly \<open>need\<close> from the stack to the pot.  If the stack is smaller but positive,
  \<^verbatim>\<open>Call\<close> moves the whole stack to the pot and marks the seat all-in.  In both cases
  \<^verbatim>\<open>ActorsToAct\<close> drops by exactly one, no other seat changes, the current bet and the
  last raise size stay as they were, and the turn advances: the only error left is the
  panic of \<^verbatim>\<open>advanceTurn\<close>, which needs a player of \<^verbatim>\<open>Order\<close> without a seat; otherwise
  the new turn index is the first position after the old one, walking \<^verbatim>\<open>Order\<close> cyclically
  for at most its length, whose seat is in the hand, not folded and not all-in (after the
  payment, so that a caller who went all-in is passed over), and it is the old index when
  no seat of \<^verbatim>\<open>Order\<close> is.
\<close>

theorem call_pays:
  assumes seat: "fmlookup (Seats s) p = Some st"
    and turn: "CurrentPlayer s = Some p"
    and bet: "0 <s CurrentBet s"
    and need: "0 <s CurrentBet s - Committed st"
  shows "(CurrentBet s - Committed st \<le>s Stack st \<longrightarrow>
            (\<exists>e s'. Call p s = (e, s')
               \<and> (e = None \<or> e = Some ErrPanic)
               \<and> advanceTurnOk (s'\<lparr>TurnIdx := TurnIdx s\<rparr>) = (e, s')
               \<and> (e = Some ErrPanic \<longrightarrow> (\<exists>q\<in>set (Order s). fmlookup (Seats s) q = None))
               \<and> (e = None \<longrightarrow>
                    (\<exists>k. 1 \<le> k \<and> k \<le> int (length (Order s))
                       \<and> TurnIdx s' = (TurnIdx s + k) mod int (length (Order s))
                       \<and> eligible s' (Order s ! nat (TurnIdx s'))
                       \<and> (\<forall>j. 1 \<le> j \<and> j < k \<longrightarrow>
                             \<not> eligible s'
                                 (Order s ! nat ((TurnIdx s + j) mod int (length (Order s))))))
                    \<or> (TurnIdx s' = TurnIdx s \<and> (\<forall>q\<in>set (Order s). \<not> eligible s' q)))
               \<and> fmlookup (Seats s') p
                    = Some (st\<lparr>Stack := Stack st - (CurrentBet s - Committed st),
                               Committed := CurrentBet s\<rparr>)
               \<and> (\<forall>q. q \<noteq> p \<longrightarrow> fmlookup (Seats s') q = fmlookup (Seats s) q)
               \<and> Pot s' = Pot s + (CurrentBet s - Committed st)
               \<and> ActorsToAct s' = ActorsToAct s - 1
               \<and> CurrentBet s' = CurrentBet s \<and> LastRaiseSize s' = LastRaiseSize s))
       \<and> (Stack st <s CurrentBet s - Committed st \<and> 0 <s Stack st \<longrightarrow>
            (\<exists>e s'. Call p s = (e, s')
               \<and> (e = None \<or> e = Some ErrPanic)
               \<and> advanceTurnOk (s'\<lparr>TurnIdx := TurnIdx s\<rparr>) = (e, s')
               \<and> (e = Some ErrPanic \<longrightarrow> (\<exists>q\<in>set (Order s). fmlookup (Seats s) q = None))
               \<and> (e = None \<longrightarrow>
                    (\<exists>k. 1 \<le> k \<and> k \<le> int (length (Order s))
                       \<and> TurnIdx s' = (TurnIdx s + k) mod int (length (Order s))
                       \<and> eligible s' (Order s ! nat (TurnIdx s'))
                       \<and> (\<forall>j. 1 \<le> j \<and> j < k \<longrightarrow>
                             \<not> eligible s'
                                 (Order s ! nat ((TurnIdx s + j) mod int (length (Order s))))))
                    \<or> (TurnIdx s' = TurnIdx s \<and> (\<forall>q\<in>set (Order s). \<not> eligible s' q)))
               \<and> fmlookup (Seats s') p
                    = Some (st\<lparr>Stack := 0, AllIn := True,
                               Committed := Committed st + Stack st\<rparr>)
               \<and> (\<forall>q. q \<noteq> p \<longrightarrow> fmlookup (Seats s') q = fmlookup (Seats s) q)
               \<and> Pot s' = Pot s + Stack st
               \<and> ActorsToAct s' = ActorsToAct s - 1
               \<and> CurrentBet s' = CurrentBet s \<and> LastRaiseSize s' = LastRaiseSize s))"
  (is "(_ \<longrightarrow> ?full) \<and> (_ \<longrightarrow> ?short)")
proof (intro conjI impI)
  define need where "need = CurrentBet s - Committed st"
  have nz: "CurrentBet s \<noteq> 0" using bet by auto
  have npos: "\<not> need \<le>s 0" using need by (simp add: need_def signed.not_le)
  have tail: "(e = None \<or> e = Some ErrPanic)
      \<and> advanceTurnOk (s'\<lparr>TurnIdx := TurnIdx s\<rparr>) = (e, s')
      \<and> (e = Some ErrPanic \<longrightarrow> (\<exists>q\<in>set (Order s). fmlookup (Seats s) q = None))
      \<and> (e = None \<longrightarrow>
            (\<exists>k. 1 \<le> k \<and> k \<le> int (length (Order s))
               \<and> TurnIdx s' = (TurnIdx s + k) mod int (length (Order s))
               \<and> eligible s' (Order s ! nat (TurnIdx s'))
               \<and> (\<forall>j. 1 \<le> j \<and> j < k \<longrightarrow>
                     \<not> eligible s'
                         (Order s ! nat ((TurnIdx s + j) mod int (length (Order s))))))
            \<or> (TurnIdx s' = TurnIdx s \<and> (\<forall>q\<in>set (Order s). \<not> eligible s' q)))
      \<and> Seats s' = Seats s1 \<and> Pot s' = Pot s1 \<and> ActorsToAct s' = ActorsToAct s1
      \<and> CurrentBet s' = CurrentBet s1 \<and> LastRaiseSize s' = LastRaiseSize s1"
    if r: "advanceTurnOk s1 = (e, s')"
      and s1: "s1 = s\<lparr>Seats := fmupd p st1 (Seats s), Pot := pot1, ActorsToAct := n1\<rparr>"
    for s1 e s' st1 pot1 n1
  proof -
    from advanceTurnOk_cases [OF r] have
      e: "e = None \<or> e = Some ErrPanic"
      and t: "advanceTurnOk (s'\<lparr>TurnIdx := TurnIdx s1\<rparr>) = (e, s')"
      and f: "s' = s1\<lparr>TurnIdx := TurnIdx s'\<rparr>" by simp_all
    have g: "Seats s' = Seats s1" "Pot s' = Pot s1" "ActorsToAct s' = ActorsToAct s1"
      "CurrentBet s' = CurrentBet s1" "LastRaiseSize s' = LastRaiseSize s1"
      by (subst f, simp)+
    have cp: "CurrentPlayer s1 = Some p"
      using turn by (auto simp: CurrentPlayer_def s1 split: if_splits)
    have o: "Order s1 = Order s" "TurnIdx s1 = TurnIdx s" by (simp_all add: s1)
    have none: "fmlookup (Seats s) q = None" if "fmlookup (Seats s1) q = None" for q
      using that seat by (cases "q = p") (simp_all add: s1)
    from advanceTurnOk_walk [OF r cp] have
      "(e = Some ErrPanic \<longrightarrow> (\<exists>q\<in>set (Order s). fmlookup (Seats s) q = None))"
      and "(e = None \<longrightarrow>
            (\<exists>k. 1 \<le> k \<and> k \<le> int (length (Order s))
               \<and> TurnIdx s' = (TurnIdx s + k) mod int (length (Order s))
               \<and> eligible s' (Order s ! nat (TurnIdx s'))
               \<and> (\<forall>j. 1 \<le> j \<and> j < k \<longrightarrow>
                     \<not> eligible s'
                         (Order s ! nat ((TurnIdx s + j) mod int (length (Order s))))))
            \<or> (TurnIdx s' = TurnIdx s \<and> (\<forall>q\<in>set (Order s). \<not> eligible s' q)))"
      unfolding o using none by blast+
    with e t g o show ?thesis by simp
  qed
  {
    assume full: "CurrentBet s - Committed st \<le>s Stack st"
    define s1 where "s1 = s\<lparr>Seats := fmupd p (st\<lparr>Stack := Stack st - need,
        Committed := Committed st + need\<rparr>) (Seats s), Pot := Pot s + need,
        ActorsToAct := ActorsToAct s - 1\<rparr>"
    have c: "Call p s = advanceTurnOk s1"
      using seat turn nz npos full
      by (simp add: Call_def ensureTurn_iff [THEN iffD2] Let_def need_def s1_def)
    obtain e s' where r: "advanceTurnOk s1 = (e, s')" by (cases "advanceTurnOk s1")
    from tail [OF r s1_def] c r show ?full
      by (intro exI [of _ e] exI [of _ s']) (simp add: s1_def need_def)
  }
  {
    assume short: "Stack st <s CurrentBet s - Committed st \<and> 0 <s Stack st"
    define s1 where "s1 = s\<lparr>Seats := fmupd p (st\<lparr>Stack := 0, AllIn := True,
        Committed := Committed st + Stack st\<rparr>) (Seats s), Pot := Pot s + Stack st,
        ActorsToAct := ActorsToAct s - 1\<rparr>"
    from short have nf: "\<not> need \<le>s Stack st" and sp: "\<not> Stack st \<le>s 0"
      by (simp_all add: need_def signed.not_le)
    have c: "Call p s = advanceTurnOk s1"
      using seat turn nz npos nf sp
      by (simp add: Call_def ensureTurn_iff [THEN iffD2] Let_def need_def s1_def)
    obtain e s' where r: "advanceTurnOk s1 = (e, s')" by (cases "advanceTurnOk s1")
    from tail [OF r s1_def] c r show ?short
      by (intro exI [of _ e] exI [of _ s']) (simp add: s1_def)
  }
qed


subsection \<open>Raise\<close>

lemma countNeedToAct_cong:
  "Order s' = Order s \<Longrightarrow> Seats s' = Seats s \<Longrightarrow> CurrentBet s' = CurrentBet s
   \<Longrightarrow> countNeedToAct s' = countNeedToAct s"
proof -
  assume a: "Order s' = Order s" "Seats s' = Seats s" "CurrentBet s' = CurrentBet s"
  have "needLoop s' ord n = needLoop s ord n" for ord n
    by (induction ord arbitrary: n) (auto simp: eligible_def a split: option.splits)
  then show ?thesis by (simp add: countNeedToAct_def a)
qed

lemma sint_add_range:
  fixes x y :: int64
  assumes "- (2 ^ 63) \<le> sint x + sint y" and "sint x + sint y < 2 ^ 63"
  shows "sint (x + y) = sint x + sint y"
  unfolding sint_word_ariths
  by (rule signed_take_bit_int_eq_self) (use assms in simp_all)

lemma sint_diff_range:
  fixes x y :: int64
  assumes "- (2 ^ 63) \<le> sint x - sint y" and "sint x - sint y < 2 ^ 63"
  shows "sint (x - y) = sint x - sint y"
  unfolding sint_word_ariths
  by (rule signed_take_bit_int_eq_self) (use assms in simp_all)

lemma pos_sum_nonzero:
  fixes x y :: int64
  assumes "0 <s x" and "0 <s y"
  shows "x + y \<noteq> 0"
proof
  assume "x + y = 0"
  then have y: "y = - x" by (simp add: add_eq_0_iff2)
  have x: "0 < sint x" "sint x < 2 ^ 63"
    using assms(1) sint_lt [of x] by (simp_all add: word_sless_alt)
  have "sint (0 - x) = sint (0 :: int64) - sint x"
    by (rule sint_diff_range) (use x in simp_all)
  then have "sint (- x) = - sint x" by simp
  with y x assms(2) show False by (simp add: word_sless_alt)
qed

text \<open>
  What \<^verbatim>\<open>countNeedToAct\<close> counts: the players of \<^verbatim>\<open>Order\<close> whose seat is in the hand, not
  folded and not all-in, and, when there is a bet, has committed less than it.
\<close>

lemma needLoop_filter:
  "needLoop s ord n =
     n + int (length (filter
           (\<lambda>q. \<exists>x. fmlookup (Seats s) q = Some x \<and> InHand x \<and> \<not> Folded x \<and> \<not> AllIn x
                  \<and> (CurrentBet s = 0 \<or> Committed x <s CurrentBet s)) ord))"
  by (induction ord arbitrary: n) (auto simp: eligible_def split: option.splits)

lemma countNeedToAct_filter:
  "countNeedToAct s =
     int (length (filter
           (\<lambda>q. \<exists>x. fmlookup (Seats s) q = Some x \<and> InHand x \<and> \<not> Folded x \<and> \<not> AllIn x
                  \<and> (CurrentBet s = 0 \<or> Committed x <s CurrentBet s)) (Order s)))"
  by (simp add: countNeedToAct_def needLoop_filter)

lemma advanceTurnOk_bets:
  "CurrentBet (snd (advanceTurnOk s)) = CurrentBet s"
  "LastRaiseSize (snd (advanceTurnOk s)) = LastRaiseSize s"
proof -
  have "\<exists>t. snd (advanceTurnOk s) = s\<lparr>TurnIdx := t\<rparr>"
  proof (cases "advanceTurn s")
    case None
    then have "snd (advanceTurnOk s) = s\<lparr>TurnIdx := TurnIdx s\<rparr>" by (simp add: advanceTurnOk_def)
    then show ?thesis ..
  next
    case (Some s')
    with advanceTurn_fields [OF Some] show ?thesis by (auto simp: advanceTurnOk_def)
  qed
  then obtain t where t: "snd (advanceTurnOk s) = s\<lparr>TurnIdx := t\<rparr>" ..
  show "CurrentBet (snd (advanceTurnOk s)) = CurrentBet s"
    "LastRaiseSize (snd (advanceTurnOk s)) = LastRaiseSize s"
    by (simp_all add: t)
qed

lemma dealHoles_bets:
  "CurrentBet (snd (dealHoles ord s)) = CurrentBet s
   \<and> LastRaiseSize (snd (dealHoles ord s)) = LastRaiseSize s"
  by (induction ord arbitrary: s) (auto split: option.splits)

lemma postBlind_bets:
  "postBlind p amt s = Some s' \<Longrightarrow>
     CurrentBet s' = CurrentBet s \<and> LastRaiseSize s' = LastRaiseSize s \<and> BigBlind s' = BigBlind s"
  by (auto simp: postBlind_def Let_def split: option.splits if_splits)

lemma Raise_bets:
  "(CurrentBet (snd (Raise p add s)) = CurrentBet s
      \<and> LastRaiseSize (snd (Raise p add s)) = LastRaiseSize s)
   \<or> (0 <s add \<and> LastRaiseSize (snd (Raise p add s)) = add)"
proof (cases "fmlookup (Seats s) p")
  case None
  then show ?thesis by (subst (1 2) Raise.simps) simp
next
  case (Some st)
  note seat = this
  show ?thesis
  proof (cases "ensureTurn p s = None \<and> CurrentBet s \<noteq> 0 \<and> \<not> add \<le>s 0")
    case False
    with seat show ?thesis
      by (subst (1 2) Raise.simps) (auto split: option.splits)
  next
    case True
    define need where
      "need = (if Committed st <s CurrentBet s then CurrentBet s - Committed st else 0)"
    define tot where "tot = need + add"
    from True have addpos: "0 <s add" by (simp add: signed.not_le)
    have nb: "\<not> Stack st <s tot \<Longrightarrow> tot \<le>s Stack st"
      by (simp add: signed.not_less)
    consider (full) "LastRaiseSize s \<le>s add" "tot \<le>s Stack st"
      | (short) "\<not> (LastRaiseSize s \<le>s add \<and> tot \<le>s Stack st)" "Stack st <s tot"
      | (small) "\<not> LastRaiseSize s \<le>s add" "\<not> Stack st <s tot"
      using nb by blast
    then show ?thesis
    proof cases
      case full
      with seat True addpos have "LastRaiseSize (snd (Raise p add s)) = add"
        by (subst Raise.simps)
           (simp add: Let_def advanceTurnOk_bets need_def [symmetric] tot_def [symmetric])
      with addpos show ?thesis by simp
    next
      case short
      with seat True have "CurrentBet (snd (Raise p add s)) = CurrentBet s
          \<and> LastRaiseSize (snd (Raise p add s)) = LastRaiseSize s"
        by (subst (1 2) Raise.simps)
           (auto simp: Let_def advanceTurnOk_bets need_def [symmetric] tot_def [symmetric])
      then show ?thesis by simp
    next
      case small
      then have "add <s LastRaiseSize s" by (simp add: signed.not_le)
      with small seat True have "snd (Raise p add s) = s"
        by (subst Raise.simps)
           (simp add: Let_def need_def [symmetric] tot_def [symmetric])
      then show ?thesis by simp
    qed
  qed
qed

text \<open>
  In every state the engine reaches, a positive current bet comes with a positive last
  raise size: each operation keeps this.
\<close>

lemma bet_has_raise_size:
  assumes "0 <s CurrentBet s \<longrightarrow> 0 <s LastRaiseSize s"
  shows "0 <s CurrentBet (snd (StartHand r s)) \<longrightarrow> 0 <s LastRaiseSize (snd (StartHand r s))"
    and "0 <s CurrentBet (snd (Bet p amt s)) \<longrightarrow> 0 <s LastRaiseSize (snd (Bet p amt s))"
    and "0 <s CurrentBet (snd (Check p s)) \<longrightarrow> 0 <s LastRaiseSize (snd (Check p s))"
    and "0 <s CurrentBet (snd (Fold p s)) \<longrightarrow> 0 <s LastRaiseSize (snd (Fold p s))"
    and "0 <s CurrentBet (snd (Call p s)) \<longrightarrow> 0 <s LastRaiseSize (snd (Call p s))"
    and "0 <s CurrentBet (snd (Raise p add s)) \<longrightarrow> 0 <s LastRaiseSize (snd (Raise p add s))"
    and "0 <s CurrentBet (AdvancePhase s) \<longrightarrow> 0 <s LastRaiseSize (AdvancePhase s)"
    and "ResolveShowdown s = Some (sm, s') \<Longrightarrow> 0 <s CurrentBet s' \<longrightarrow> 0 <s LastRaiseSize s'"
proof -
  show "0 <s CurrentBet (snd (StartHand r s)) \<longrightarrow> 0 <s LastRaiseSize (snd (StartHand r s))"
    using assms
    by (auto simp: StartHand_def Let_def dealHoles_bets split: option.splits
        dest!: postBlind_bets)
  show "0 <s CurrentBet (snd (Bet p amt s)) \<longrightarrow> 0 <s LastRaiseSize (snd (Bet p amt s))"
    using assms
    by (auto simp: Bet_def Let_def advanceTurnOk_bets signed.not_le split: option.splits)
  show "0 <s CurrentBet (snd (Check p s)) \<longrightarrow> 0 <s LastRaiseSize (snd (Check p s))"
    using assms by (auto simp: Check_def Let_def advanceTurnOk_bets split: option.splits)
  show "0 <s CurrentBet (snd (Fold p s)) \<longrightarrow> 0 <s LastRaiseSize (snd (Fold p s))"
    using assms by (auto simp: Fold_def Let_def advanceTurnOk_bets split: option.splits)
  show "0 <s CurrentBet (snd (Call p s)) \<longrightarrow> 0 <s LastRaiseSize (snd (Call p s))"
    using assms by (auto simp: Call_def Let_def advanceTurnOk_bets split: option.splits)
  show "0 <s CurrentBet (snd (Raise p add s)) \<longrightarrow> 0 <s LastRaiseSize (snd (Raise p add s))"
    using assms Raise_bets [of p add s] by auto
  show "0 <s CurrentBet (AdvancePhase s) \<longrightarrow> 0 <s LastRaiseSize (AdvancePhase s)"
    using assms
    by (auto simp: AdvancePhase_def resetCommittedAndSetTurnFromDealer_def Let_def)
  show "ResolveShowdown s = Some (sm, s') \<Longrightarrow> 0 <s CurrentBet s' \<longrightarrow> 0 <s LastRaiseSize s'"
    using assms
    by (auto simp: ResolveShowdown_def Let_def split: option.splits if_splits)
qed

text \<open>
  The invariant holds in a new state, where there is no bet, and seating, leaving and
  restoring a snapshot leave the current bet and the last raise size as they are.
\<close>

lemma bet_has_raise_size_init:
  "CurrentBet (NewState sb bb) = 0"
  "CurrentBet (snd (Sit p buyin s)) = CurrentBet s
     \<and> LastRaiseSize (snd (Sit p buyin s)) = LastRaiseSize s"
  "CurrentBet (Leave p s) = CurrentBet s \<and> LastRaiseSize (Leave p s) = LastRaiseSize s"
  "CurrentBet (RestoreFromSnapshot s ss) = CurrentBet s
     \<and> LastRaiseSize (RestoreFromSnapshot s ss) = LastRaiseSize s"
  by (simp_all add: NewState_def Sit_def sortOrder_def Leave_def Let_def
      RestoreFromSnapshot_def split: option.splits)

text \<open>
  Claim C6.  It is \<open>p\<close>'s turn and the current bet is positive; the last raise size is
  positive, as in every state the engine reaches with a positive current bet (lemmas
  \<open>bet_has_raise_size_init\<close> and \<open>bet_has_raise_size\<close>).  The amounts are read as
  integers: \<open>need = max 0 (current_bet - committed)\<close> and \<open>tot = need + add\<close>.
  If \<open>add\<close> is at least the last raise size and the stack covers \<open>tot\<close>, \<^verbatim>\<open>Raise\<close> moves
  \<open>tot\<close> from the stack to the pot (the stack, as an integer, drops by exactly \<open>tot\<close>), sets
  the current bet to the seat's new \<^verbatim>\<open>Committed\<close> and the last raise size to \<open>add\<close>, and
  sets \<^verbatim>\<open>ActorsToAct\<close> to the number of players of \<^verbatim>\<open>Order\<close> whose seat is in the hand, not
  folded, not all-in and has committed less than the new current bet; this includes \<open>add\<close>
  equal to the last raise size.  If \<open>add\<close> is below the last raise size and the stack
  covers \<open>tot\<close>, \<^verbatim>\<open>Raise\<close> returns an error and the state is unchanged; this includes
  \<open>add\<close> one chip below the last raise size.
\<close>

theorem raise_min_boundary:
  assumes seat: "fmlookup (Seats s) p = Some st"
    and turn: "CurrentPlayer s = Some p"
    and bet: "0 <s CurrentBet s"
    and lrs: "0 <s LastRaiseSize s"
    and need: "need = max 0 (sint (CurrentBet s) - sint (Committed st))"
    and tot: "tot = need + sint add"
  shows "(sint (LastRaiseSize s) \<le> sint add \<and> tot \<le> sint (Stack st) \<longrightarrow>
            (\<exists>e s' st'. Raise p add s = (e, s')
               \<and> (e = None \<or> e = Some ErrPanic)
               \<and> advanceTurnOk (s'\<lparr>TurnIdx := TurnIdx s\<rparr>) = (e, s')
               \<and> fmlookup (Seats s') p = Some st'
               \<and> st' = st\<lparr>Stack := Stack st - word_of_int tot,
                           Committed := Committed st + word_of_int tot\<rparr>
               \<and> sint (Stack st') = sint (Stack st) - tot
               \<and> (\<forall>q. q \<noteq> p \<longrightarrow> fmlookup (Seats s') q = fmlookup (Seats s) q)
               \<and> Pot s' = Pot s + word_of_int tot
               \<and> CurrentBet s' = Committed st' \<and> CurrentBet s' \<noteq> 0
               \<and> LastRaiseSize s' = add
               \<and> ActorsToAct s' =
                   int (length (filter
                     (\<lambda>q. \<exists>x. fmlookup (Seats s') q = Some x \<and> InHand x \<and> \<not> Folded x
                            \<and> \<not> AllIn x \<and> Committed x <s CurrentBet s') (Order s')))))
       \<and> (sint add < sint (LastRaiseSize s) \<and> tot \<le> sint (Stack st) \<longrightarrow>
            (\<exists>msg. Raise p add s = (Some (ErrOther msg), s)))
       \<and> (add = LastRaiseSize s \<longrightarrow> sint (LastRaiseSize s) \<le> sint add)
       \<and> (sint add = sint (LastRaiseSize s) - 1 \<longrightarrow> sint add < sint (LastRaiseSize s))"
  (is "(_ \<longrightarrow> ?full) \<and> (_ \<longrightarrow> ?reject) \<and> ?eq \<and> ?less")
proof (intro conjI)
  define needw where
    "needw = (if Committed st <s CurrentBet s then CurrentBet s - Committed st else 0)"
  define totw where "totw = needw + add"
  have nz: "CurrentBet s \<noteq> 0" using bet by auto
  have cbpos: "0 < sint (CurrentBet s)" using bet by (simp add: word_sless_alt)
  have words: "sint needw = need \<and> sint totw = tot"
    if cover: "tot \<le> sint (Stack st)" and apos: "0 < sint add"
  proof -
    have n0: "0 \<le> need" using need by simp
    have n1: "need < 2 ^ 63" using cover apos tot sint_lt [of "Stack st"] by simp
    have nw: "sint needw = need"
    proof (cases "Committed st <s CurrentBet s")
      case True
      then have "need = sint (CurrentBet s) - sint (Committed st)"
        using need by (simp add: word_sless_alt)
      moreover from this n0 n1
      have "sint (CurrentBet s - Committed st) = sint (CurrentBet s) - sint (Committed st)"
        by (intro sint_diff_range) simp_all
      ultimately show ?thesis using True by (simp add: needw_def)
    next
      case False
      then show ?thesis using need by (simp add: needw_def word_sless_alt)
    qed
    have "sint (needw + add) = sint needw + sint add"
      using nw n0 apos cover tot sint_lt [of "Stack st"] by (intro sint_add_range) simp_all
    with nw show ?thesis by (simp add: totw_def tot)
  qed
  show "sint (LastRaiseSize s) \<le> sint add \<and> tot \<le> sint (Stack st) \<longrightarrow> ?full"
  proof
    assume full: "sint (LastRaiseSize s) \<le> sint add \<and> tot \<le> sint (Stack st)"
    with lrs have apos: "0 < sint add" by (simp add: word_sless_alt)
    then have addpos: "\<not> add \<le>s 0" and addpos': "0 <s add"
      by (simp_all add: word_sle_eq word_sless_alt)
    from words [OF _ apos] full have nw: "sint needw = need" and tw: "sint totw = tot"
      by simp_all
    have tw': "word_of_int tot = totw" using tw by auto
    have fullw: "LastRaiseSize s \<le>s add \<and> totw \<le>s Stack st"
      using full tw by (simp add: word_sle_eq)
    have needpos: "Committed st <s CurrentBet s \<Longrightarrow> 0 <s needw"
      using nw need by (simp add: word_sless_alt)
    define st2 where "st2 = st\<lparr>Stack := Stack st - totw, Committed := Committed st + totw\<rparr>"
    define s2 where "s2 = s\<lparr>Seats := fmupd p st2 (Seats s), Pot := Pot s + totw,
        CurrentBet := Committed st2, LastRaiseSize := add\<rparr>"
    define s3 where "s3 = s2\<lparr>ActorsToAct := countNeedToAct s2\<rparr>"
    have c: "Raise p add s = advanceTurnOk s3"
    proof (cases "Committed st <s CurrentBet s")
      case True
      with needpos have np: "0 <s needw" by simp
      from True have ne: "CurrentBet s - Committed st = needw" by (simp add: needw_def)
      show ?thesis
        using seat turn nz addpos fullw np True
        by (subst Raise.simps)
           (simp add: ensureTurn_iff [THEN iffD2] Let_def s3_def s2_def st2_def ne totw_def
              diff_diff_eq add.assoc)
    next
      case False
      then have "needw = 0" by (simp add: needw_def)
      then show ?thesis
        using seat turn nz addpos fullw False
        by (subst Raise.simps)
           (simp add: ensureTurn_iff [THEN iffD2] Let_def s3_def s2_def st2_def totw_def)
    qed
    have cbnz: "Committed st + totw \<noteq> 0"
    proof (cases "Committed st <s CurrentBet s")
      case True
      then have "Committed st + totw = CurrentBet s + add" by (simp add: totw_def needw_def)
      with pos_sum_nonzero [OF bet addpos'] show ?thesis by simp
    next
      case False
      then have "0 <s Committed st"
        using cbpos by (simp add: word_sless_alt)
      from pos_sum_nonzero [OF this addpos'] False show ?thesis
        by (simp add: totw_def needw_def)
    qed
    have stack: "sint (Stack st - totw) = sint (Stack st) - tot"
    proof -
      have "0 \<le> tot" using need tot apos by simp
      then have "sint (Stack st - totw) = sint (Stack st) - sint totw"
        using full tw sint_lt [of "Stack st"] by (intro sint_diff_range) simp_all
      with tw show ?thesis by simp
    qed
    obtain e s' where r: "advanceTurnOk s3 = (e, s')" by (cases "advanceTurnOk s3")
    from advanceTurnOk_cases [OF r] have
      e: "e = None \<or> e = Some ErrPanic"
      and t: "advanceTurnOk (s'\<lparr>TurnIdx := TurnIdx s3\<rparr>) = (e, s')"
      and f: "s' = s3\<lparr>TurnIdx := TurnIdx s'\<rparr>" by simp_all
    have g: "Seats s' = Seats s3" "Pot s' = Pot s3" "ActorsToAct s' = ActorsToAct s3"
      "CurrentBet s' = CurrentBet s3" "LastRaiseSize s' = LastRaiseSize s3" "Order s' = Order s3"
      by (subst f, simp)+
    have cnt: "ActorsToAct s' =
        int (length (filter
          (\<lambda>q. \<exists>x. fmlookup (Seats s') q = Some x \<and> InHand x \<and> \<not> Folded x
                 \<and> \<not> AllIn x \<and> Committed x <s CurrentBet s') (Order s')))"
      using cbnz by (simp add: g s3_def countNeedToAct_filter) (simp add: s2_def st2_def)
    show ?full
      using c r e t g cnt cbnz stack
      by (intro exI [of _ e] exI [of _ s'] exI [of _ st2])
         (simp add: s3_def s2_def st2_def tw')
  qed
  show "sint add < sint (LastRaiseSize s) \<and> tot \<le> sint (Stack st) \<longrightarrow> ?reject"
  proof
    assume small: "sint add < sint (LastRaiseSize s) \<and> tot \<le> sint (Stack st)"
    show ?reject
    proof (cases "add \<le>s 0")
      case True
      with seat turn nz show ?thesis
        by (subst Raise.simps) (simp add: ensureTurn_iff [THEN iffD2])
    next
      case False
      then have apos: "0 < sint add" by (simp add: word_sle_eq)
      from words [OF _ apos] small have tw: "sint totw = tot" by simp
      from small tw have a: "\<not> LastRaiseSize s \<le>s add" and b: "\<not> Stack st <s totw"
        and c: "add <s LastRaiseSize s"
        by (simp_all add: word_sle_eq word_sless_alt)
      show ?thesis
        using seat turn nz False a b c
        by (subst Raise.simps)
           (simp add: ensureTurn_iff [THEN iffD2] Let_def needw_def [symmetric]
              totw_def [symmetric])
    qed
  qed
  show ?eq by simp
  show ?less by simp
qed


subsection \<open>Phase advance\<close>

lemma reset_committed:
  "fmlookup (Seats (resetCommittedAndSetTurnFromDealer s)) p = Some st \<Longrightarrow> Committed st = 0"
  by (auto simp: resetCommittedAndSetTurnFromDealer_def Let_def split: if_splits)

lemma reset_bets:
  "CurrentBet (resetCommittedAndSetTurnFromDealer s) = 0"
  "LastRaiseSize (resetCommittedAndSetTurnFromDealer s) = BigBlind s"
  by (auto simp: resetCommittedAndSetTurnFromDealer_def Let_def split: if_splits)

text \<open>
  Claim C3 says that after every \<^verbatim>\<open>AdvancePhase\<close>, also from the river to the showdown,
  every seat has \<^verbatim>\<open>Committed = 0\<close> and the current bet is 0.  On the river of the example
  hand \<^verbatim>\<open>A\<close> bets 10 and \<^verbatim>\<open>B\<close> calls; \<^verbatim>\<open>AdvancePhase\<close> then moves to the showdown and
  both seats still have 10 committed, with a current bet of 10.
\<close>

theorem river_advance_keeps_bets:
  "Phase exRiver = PhaseRiver \<and> HandActive exRiver
   \<and> Phase (AdvancePhase exRiver) = PhaseShowdown
   \<and> CurrentBet (AdvancePhase exRiver) = 10
   \<and> map_option Committed (fmlookup (Seats (AdvancePhase exRiver)) ''A'') = Some 10
   \<and> map_option Committed (fmlookup (Seats (AdvancePhase exRiver)) ''B'') = Some 10"
  by (simp add: exRiver_eq AdvancePhase_def)

text \<open>
  Claim C3, amended.  From preflop, flop and turn, \<^verbatim>\<open>AdvancePhase\<close> leaves every seat with
  \<^verbatim>\<open>Committed = 0\<close>, the current bet at 0 and the last raise size at the big blind, and
  moves to the next phase.  From the river it only sets the phase to showdown and clears
  \<^verbatim>\<open>HandActive\<close>: committed chips and the current bet stay as they were.
\<close>

theorem advance_phase_resets:
  "(Phase s = PhasePreflop \<or> Phase s = PhaseFlop \<or> Phase s = PhaseTurn \<longrightarrow>
      (\<forall>p st. fmlookup (Seats (AdvancePhase s)) p = Some st \<longrightarrow> Committed st = 0)
      \<and> CurrentBet (AdvancePhase s) = 0
      \<and> LastRaiseSize (AdvancePhase s) = BigBlind s
      \<and> Phase (AdvancePhase s) = Phase s + 1)
   \<and> (Phase s = PhaseRiver \<longrightarrow>
        AdvancePhase s = s\<lparr>Phase := PhaseShowdown, HandActive := False\<rparr>)"
  by (auto simp: AdvancePhase_def Let_def reset_bets dest: reset_committed)

theorem advance_phase_resets_witness:
  "Phase exDealt = PhasePreflop \<and> HandActive exDealt
   \<and> map_option Committed (fmlookup (Seats exDealt) ''B'') = Some 10
   \<and> CurrentBet exDealt = 10
   \<and> map_option Committed (fmlookup (Seats (AdvancePhase exDealt)) ''A'') = Some 0
   \<and> map_option Committed (fmlookup (Seats (AdvancePhase exDealt)) ''B'') = Some 0
   \<and> CurrentBet (AdvancePhase exDealt) = 0
   \<and> LastRaiseSize (AdvancePhase exDealt) = 10
   \<and> Phase (AdvancePhase exDealt) = PhaseFlop
   \<and> Phase exRiver = PhaseRiver
   \<and> AdvancePhase exRiver = exRiver\<lparr>Phase := PhaseShowdown, HandActive := False\<rparr>"
proof -
  have a: "Phase exDealt = PhasePreflop" "HandActive exDealt" "BigBlind exDealt = 10"
    "map_option Committed (fmlookup (Seats exDealt) ''B'') = Some 10" "CurrentBet exDealt = 10"
    by (simp_all add: exDealt_eq)
  have b: "Phase exRiver = PhaseRiver" by (simp add: exRiver_eq)
  have d: "fmlookup (Seats (AdvancePhase exDealt)) ''A'' \<noteq> None"
    "fmlookup (Seats (AdvancePhase exDealt)) ''B'' \<noteq> None"
    by (simp_all add: exDealt_eq engine_eval)
  from advance_phase_resets [of exDealt] a
  have c: "\<forall>p st. fmlookup (Seats (AdvancePhase exDealt)) p = Some st \<longrightarrow> Committed st = 0"
    "CurrentBet (AdvancePhase exDealt) = 0" "LastRaiseSize (AdvancePhase exDealt) = 10"
    "Phase (AdvancePhase exDealt) = PhaseFlop"
    by simp_all
  from c(1) d have e: "map_option Committed (fmlookup (Seats (AdvancePhase exDealt)) ''A'') = Some 0"
    "map_option Committed (fmlookup (Seats (AdvancePhase exDealt)) ''B'') = Some 0"
    by auto
  show ?thesis
    using a b c(2-4) e advance_phase_resets [of exRiver] by simp
qed

theorem call_pays_witness:
  "fmlookup (Seats exDealt) ''A''
     = Some \<lparr>Player = ''A'', Stack = 995, Committed = 5, InHand = True, AllIn = False,
             Folded = False\<rparr>
   \<and> CurrentPlayer exDealt = Some ''A'' \<and> CurrentBet exDealt = 10 \<and> Pot exDealt = 15
   \<and> Order exDealt = [''A'', ''B''] \<and> TurnIdx exDealt = 0
   \<and> (\<exists>s'. Call ''A'' exDealt = (None, s')
         \<and> map_option Stack (fmlookup (Seats s') ''A'') = Some 990
         \<and> Pot s' = 20 \<and> ActorsToAct s' = ActorsToAct exDealt - 1
         \<and> TurnIdx s' = 1 \<and> eligible s' ''B'')
   \<and> fmlookup (Seats exShort) ''A''
     = Some \<lparr>Player = ''A'', Stack = 3, Committed = 5, InHand = True, AllIn = False,
             Folded = False\<rparr>
   \<and> CurrentPlayer exShort = Some ''A'' \<and> CurrentBet exShort = 10 \<and> Pot exShort = 15
   \<and> Order exShort = [''A'', ''B''] \<and> TurnIdx exShort = 0
   \<and> (\<exists>s'. Call ''A'' exShort = (None, s')
         \<and> fmlookup (Seats s') ''A''
             = Some \<lparr>Player = ''A'', Stack = 0, Committed = 8, InHand = True, AllIn = True,
                     Folded = False\<rparr>
         \<and> Pot s' = 18 \<and> ActorsToAct s' = ActorsToAct exShort - 1
         \<and> CurrentBet s' = 10 \<and> LastRaiseSize s' = LastRaiseSize exShort
         \<and> TurnIdx s' = 1 \<and> eligible s' ''B'' \<and> \<not> eligible s' ''A'')"
proof -
  let ?a = "\<lparr>Player = ''A'', Stack = 995, Committed = 5, InHand = True, AllIn = False,
             Folded = False\<rparr>"
  let ?b = "\<lparr>Player = ''A'', Stack = 3, Committed = 5, InHand = True, AllIn = False,
             Folded = False\<rparr>"
  have a: "fmlookup (Seats exDealt) ''A'' = Some ?a" "CurrentPlayer exDealt = Some ''A''"
    "CurrentBet exDealt = 10" "Pot exDealt = 15"
    "Order exDealt = [''A'', ''B'']" "TurnIdx exDealt = 0"
    by (simp_all add: exDealt_eq CurrentPlayer_def index_def)
  have b: "fmlookup (Seats exShort) ''A'' = Some ?b" "CurrentPlayer exShort = Some ''A''"
    "CurrentBet exShort = 10" "Pot exShort = 15" "LastRaiseSize exShort = 10"
    "Order exShort = [''A'', ''B'']" "TurnIdx exShort = 0"
    by (simp_all add: exShort_eq CurrentPlayer_def index_def)
  have oka: "fst (Call ''A'' exDealt) = None" "TurnIdx (snd (Call ''A'' exDealt)) = 1"
    "eligible (snd (Call ''A'' exDealt)) ''B''"
    by (simp_all add: exDealt_eq engine_eval)
  have okb: "fst (Call ''A'' exShort) = None" "TurnIdx (snd (Call ''A'' exShort)) = 1"
    "eligible (snd (Call ''A'' exShort)) ''B''" "\<not> eligible (snd (Call ''A'' exShort)) ''A''"
    by (simp_all add: exShort_eq engine_eval)
  from call_pays [of exDealt "''A''" ?a] a
  obtain e s' where 1: "Call ''A'' exDealt = (e, s')"
    "fmlookup (Seats s') ''A'' = Some (?a\<lparr>Stack := 990, Committed := 10\<rparr>)"
    "Pot s' = 20" "ActorsToAct s' = ActorsToAct exDealt - 1"
    by (auto simp: word_sle_eq word_sless_alt)
  from call_pays [of exShort "''A''" ?b] b
  obtain e2 s2 where 2: "Call ''A'' exShort = (e2, s2)"
    "fmlookup (Seats s2) ''A'' = Some (?b\<lparr>Stack := 0, AllIn := True, Committed := 8\<rparr>)"
    "Pot s2 = 18" "ActorsToAct s2 = ActorsToAct exShort - 1" "CurrentBet s2 = 10"
    "LastRaiseSize s2 = 10"
    by (auto simp: word_sle_eq word_sless_alt)
  from 1 oka have "e = None" "TurnIdx s' = 1" "eligible s' ''B''" by simp_all
  moreover from 2 okb have "e2 = None" "TurnIdx s2 = 1" "eligible s2 ''B''"
    "\<not> eligible s2 ''A''" by simp_all
  ultimately show ?thesis using a b 1 2 by simp
qed

theorem raise_min_boundary_witness:
  "fmlookup (Seats exDealt) ''A''
     = Some \<lparr>Player = ''A'', Stack = 995, Committed = 5, InHand = True, AllIn = False,
             Folded = False\<rparr>
   \<and> CurrentPlayer exDealt = Some ''A'' \<and> CurrentBet exDealt = 10
   \<and> LastRaiseSize exDealt = 10 \<and> Pot exDealt = 15 \<and> ActorsToAct exDealt = 1
   \<and> (\<exists>s'. Raise ''A'' 10 exDealt = (None, s')
         \<and> fmlookup (Seats s') ''A''
             = Some \<lparr>Player = ''A'', Stack = 980, Committed = 20, InHand = True, AllIn = False,
                     Folded = False\<rparr>
         \<and> Pot s' = 30 \<and> CurrentBet s' = 20 \<and> LastRaiseSize s' = 10
         \<and> ActorsToAct s' = 1)
   \<and> (\<exists>msg. Raise ''A'' 9 exDealt = (Some (ErrOther msg), exDealt))"
proof -
  let ?a = "\<lparr>Player = ''A'', Stack = 995, Committed = 5, InHand = True, AllIn = False,
             Folded = False\<rparr>"
  have a: "fmlookup (Seats exDealt) ''A'' = Some ?a" "CurrentPlayer exDealt = Some ''A''"
    "CurrentBet exDealt = 10" "Pot exDealt = 15" "LastRaiseSize exDealt = 10"
    "ActorsToAct exDealt = 1"
    by (simp_all add: exDealt_eq CurrentPlayer_def index_def)
  have h: "0 <s CurrentBet exDealt" "0 <s LastRaiseSize exDealt"
    "(5 :: int) = max 0 (sint (CurrentBet exDealt) - sint (Committed ?a))"
    "(15 :: int) = 5 + sint (10 :: int64)" "(14 :: int) = 5 + sint (9 :: int64)"
    by (simp_all add: a word_sless_alt)
  have ok: "fst (Raise ''A'' 10 exDealt) = None" "ActorsToAct (snd (Raise ''A'' 10 exDealt)) = 1"
    by (subst Raise.simps, simp add: exDealt_eq engine_eval)+
  note full = raise_min_boundary [OF a(1) a(2) h(1) h(2) h(3) h(4), THEN conjunct1]
  note small = raise_min_boundary [OF a(1) a(2) h(1) h(2) h(3) h(5), THEN conjunct2,
      THEN conjunct1]
  have "sint (LastRaiseSize exDealt) \<le> sint (10 :: int64) \<and> 15 \<le> sint (Stack ?a)"
    by (simp add: a)
  with full obtain e s' st' where 1: "Raise ''A'' 10 exDealt = (e, s')"
    "fmlookup (Seats s') ''A'' = Some st'"
    "st' = ?a\<lparr>Stack := Stack ?a - word_of_int 15, Committed := Committed ?a + word_of_int 15\<rparr>"
    "Pot s' = Pot exDealt + word_of_int 15" "CurrentBet s' = Committed st'"
    "LastRaiseSize s' = 10"
    by blast
  have "sint (9 :: int64) < sint (LastRaiseSize exDealt) \<and> 14 \<le> sint (Stack ?a)"
    by (simp add: a)
  with small obtain msg where 2: "Raise ''A'' 9 exDealt = (Some (ErrOther msg), exDealt)"
    by blast
  from 1 ok have "e = None" "ActorsToAct s' = 1" by simp_all
  then show ?thesis using a 1 2 by auto
qed

subsection \<open>The table replica\<close>

declare applyAction.simps [simp del] commitAndBroadcast.simps [simp del]

lemma engineCall_eng:
  "engineCall b1 b2 t r = Continue e c1 c2 c3 t1 \<Longrightarrow> t1 = t\<lparr>eng := eng t1\<rparr>"
  "engineCall b1 b2 t r \<noteq> Return t1"
  by (auto simp: engineCall_def split: prod.splits option.splits error.splits)

lemma applySwitch_eng:
  "applySwitch env a t = Continue e c1 c2 c3 t1 \<Longrightarrow> t1 = t\<lparr>eng := eng t1\<rparr>"
  by (cases "aType a")
     (auto simp: applySwitch_def Let_def split: option.splits MetaValue.splits if_splits
           dest: engineCall_eng(1))

lemma applySwitch_Return:
  "applySwitch env a t = Return t1 \<Longrightarrow> t1 = t"
  by (cases "aType a")
     (auto simp: applySwitch_def Let_def engineCall_eng(2) split: option.splits MetaValue.splits if_splits)

lemma applyAction_bet_on_bet:
  "aType a = ActBet \<and> CurrentBet (eng t) \<noteq> 0 \<Longrightarrow>
     applyAction env a t = applyAction env (a\<lparr>aType := ActRaise\<rparr>) t"
  by (subst applyAction.simps) simp

lemma applyAction_unfold:
  "\<not> (aType a = ActBet \<and> CurrentBet (eng t) \<noteq> 0) \<Longrightarrow>
     applyAction env a t =
       (case applySwitch env a t of
           Panicked \<Rightarrow> None
         | Return t1 \<Rightarrow> Some t1
         | Continue err aStart aPhase aTurn t1 \<Rightarrow>
             (case (if aType a = ActAdvance \<and> authority t1 \<and> Phase (eng t1) = PhaseShowdown
                    then map_option (\<lambda>t2. (False, t2))
                           (commitAndBroadcast env (synthAction env ActShowdown t1)
                              (t1\<lparr>idPos := idPos t1 + 1\<rparr>))
                    else Some (aTurn, t1)) of
                None \<Rightarrow> None
              | Some (aTurn2, t2) \<Rightarrow>
                  if err \<noteq> None then Some t2
                  else if (aStart \<and> announceStartPanics (eng t2))
                          \<or> ((aPhase \<or> aTurn2) \<and> announcePanics (eng t2)) then None
                  else if authority t2 \<and> HandActive (eng t2) \<and> RoundClosed (eng t2)
                          \<and> aType a \<noteq> ActAdvance
                  then commitAndBroadcast env (synthAction env ActAdvance t2)
                         (t2\<lparr>idPos := idPos t2 + 1\<rparr>)
                  else Some t2))"
  by (subst applyAction.simps) (simp only: if_False)

lemma sameReplica_refl [simp]: "sameReplica t t"
  by (simp add: sameReplica_def)

lemma sameReplica_trans: "sameReplica t t1 \<Longrightarrow> sameReplica t1 t2 \<Longrightarrow> sameReplica t t2"
  by (simp add: sameReplica_def)

lemma sameReplica_upd [simp]:
  "sameReplica (t\<lparr>eng := e\<rparr>) t' = sameReplica t t'"
  "sameReplica (t\<lparr>idPos := n\<rparr>) t' = sameReplica t t'"
  "sameReplica (t\<lparr>seq := q\<rparr>) t' = sameReplica t t'"
  "sameReplica t (t'\<lparr>eng := e\<rparr>) = sameReplica t t'"
  "sameReplica t (t'\<lparr>actLog := l\<rparr>) = sameReplica t t'"
  "sameReplica t (t'\<lparr>dedup := d\<rparr>) = sameReplica t t'"
  "sameReplica t (t'\<lparr>clock := c\<rparr>) = sameReplica t t'"
  "sameReplica t (t'\<lparr>netOut := ms\<rparr>) = sameReplica t t'"
  "sameReplica t (emit m t') = sameReplica t t'"
  by (simp_all add: sameReplica_def emit_def)

lemma apply_frame:
  "applyAction env a t = Some t' \<Longrightarrow> sameReplica t t'"
  "commitAndBroadcast env a t = Some t' \<Longrightarrow> sameReplica t t'"
proof (induction env a t and env a t arbitrary: t' and t' rule: applyAction_commitAndBroadcast.induct)
  case (1 env a t)
  show ?case
  proof (cases "aType a = ActBet \<and> CurrentBet (eng t) \<noteq> 0")
    case True
    with "1.prems" have "applyAction env (a\<lparr>aType := ActRaise\<rparr>) t = Some t'"
      by (simp add: applyAction_bet_on_bet)
    with "1.IH"(1) True show ?thesis by blast
  next
    case nb: False
    note p = "1.prems" [unfolded applyAction_unfold [OF nb]]
    show ?thesis
    proof (cases "applySwitch env a t")
      case Panicked
      with p show ?thesis by simp
    next
      case (Return t1)
      with p applySwitch_Return [OF Return] show ?thesis by simp
    next
      case (Continue err aStart aPhase aTurn t1)
      from applySwitch_eng [OF Continue] have f1: "sameReplica t t1"
        by (metis sameReplica_refl sameReplica_upd(4))
      show ?thesis
      proof (cases "aType a = ActAdvance \<and> authority t1 \<and> Phase (eng t1) = PhaseShowdown")
        case sd: True
        from p Continue sd obtain t2 where
          c: "commitAndBroadcast env (synthAction env ActShowdown t1) (t1\<lparr>idPos := idPos t1 + 1\<rparr>) = Some t2"
          and r: "t' = t2"
          by (auto split: option.splits if_splits)
        from "1.IH"(2) [OF nb Continue sd c] have "sameReplica t1 t2" by simp
        with f1 r show ?thesis by (auto intro: sameReplica_trans)
      next
        case nsd: False
        show ?thesis
        proof (cases "err = None \<and> authority t1 \<and> HandActive (eng t1) \<and> RoundClosed (eng t1) \<and> aType a \<noteq> ActAdvance
                      \<and> \<not> ((aStart \<and> announceStartPanics (eng t1)) \<or> ((aPhase \<or> aTurn) \<and> announcePanics (eng t1)))")
          case True
          with p Continue nsd have
            c: "commitAndBroadcast env (synthAction env ActAdvance t1) (t1\<lparr>idPos := idPos t1 + 1\<rparr>) = Some t'"
            by (auto split: option.splits if_splits)
          have "sameReplica (t1\<lparr>idPos := idPos t1 + 1\<rparr>) t'"
            by (rule "1.IH"(3) [OF nb Continue _ _ _ _ _ c]) (use nsd True in auto)
          with f1 show ?thesis by (auto intro: sameReplica_trans)
        next
          case False
          with p Continue nsd have "t' = t1"
            by (auto split: option.splits if_splits)
          with f1 show ?thesis by simp
        qed
      qed
    qed
  qed
next
  case (2 env a t)
  show ?case
  proof (cases "aID a \<in> dedup t")
    case True
    with "2.prems" show ?thesis by (subst (asm) commitAndBroadcast.simps) simp
  next
    case False
    with "2.prems" obtain t1 where a: "applyAction env a (t\<lparr>seq := seq t + 1\<rparr>) = Some t1"
      and r: "t' = emit (commitMsg a (t1\<lparr>actLog := actLog t1 @ [a], dedup := insert (aID a) (dedup t1), clock := TickLocal (clock t1)\<rparr>))
                 (t1\<lparr>actLog := actLog t1 @ [a], dedup := insert (aID a) (dedup t1), clock := TickLocal (clock t1)\<rparr>)"
      by (subst (asm) commitAndBroadcast.simps) (auto simp: Let_def split: option.splits)
    from "2.IH" [OF False a] have "sameReplica t t1" by simp
    with r show ?thesis by simp
  qed
qed


lemmas table_eval = onNet_def exCommit_def exFollower_def exAuthority_def New_def applyCommit_def
  Let_def TickRemote_def TickLocal_def emit_def stateQueryMsg_def exCfg_def exEnv_def
  applyAction_unfold applyAction_bet_on_bet commitAndBroadcast.simps applySwitch_def
  engineCall_def synthAction_def commitMsg_def announcePanics_def announceStartPanics_def
  dealerTagPanics_def RoundClosed_def


subsubsection \<open>Epochs\<close>

lemma sendSnapshotTo_epoch: "epoch (sendSnapshotTo env target t) = epoch t"
  by (simp add: sendSnapshotTo_def Let_def emit_def)

lemma sendHeartbeat_epoch: "epoch (sendHeartbeat t) = epoch t"
  by (simp add: sendHeartbeat_def Let_def emit_def)

lemma applyCommit_epoch:
  assumes "applyCommit env a sq t = Some t'"
  shows "epoch t' = epoch t"
proof -
  have "sameReplica t t'"
    using assms apply_frame(1) [of env a "t\<lparr>seq := sq\<rparr>"]
    by (auto simp: applyCommit_def Let_def split: if_splits option.splits)
  then show ?thesis by (simp add: sameReplica_def)
qed

text \<open>
  A message handled by \<^verbatim>\<open>onNet\<close> never lowers the epoch, except a snapshot message that
  passes the guard on the epoch of its envelope and holds a snapshot with a lower epoch.
\<close>

lemma onNet_epoch:
  assumes "onNet env now msg t = Some t'"
    and "\<And>ss. mType msg = MsgSnapshot \<Longrightarrow> mState msg = Some ss
           \<Longrightarrow> mEpoch msg < epoch t \<or> epoch t \<le> tsEpoch ss"
  shows "epoch t \<le> epoch t'"
proof (cases "mType msg")
  case MsgPropose
  with assms(1) apply_frame(2) [of env _ "t\<lparr>clock := TickRemote (mLamport msg) (clock t)\<rparr>" t']
  show ?thesis
    by (auto simp: onNet_def Let_def sameReplica_def split: if_splits option.splits)
next
  case MsgCommit
  with assms(1) show ?thesis
    by (auto simp: onNet_def Let_def split: if_splits option.splits dest!: applyCommit_epoch)
next
  case MsgSnapshot
  show ?thesis
  proof (cases "mState msg")
    case None
    with MsgSnapshot assms(1) show ?thesis by (auto simp: onNet_def Let_def)
  next
    case (Some ss)
    from assms(2) [OF MsgSnapshot Some] MsgSnapshot Some assms(1) show ?thesis
      by (auto simp: onNet_def Let_def installSnapshot_def split: if_splits option.splits)
  qed
next
  case MsgStateQuery
  with assms(1) show ?thesis
    by (auto simp: onNet_def Let_def sendSnapshotTo_epoch split: if_splits)
next
  case MsgHeartbeat
  with assms(1) show ?thesis
    by (auto simp: onNet_def Let_def split: if_splits)
next
  case (MsgOther x)
  with assms(1) show ?thesis by (auto simp: onNet_def Let_def)
qed

lemma takeover_epoch:
  assumes "epoch t \<noteq> - 1"
  shows "epoch t \<le> epoch (tryAuthorityTakeover env now t)"
proof -
  have "epoch t \<le> epoch t + 1"
    using assms inc_less_eq_self_iff_eq [of "epoch t"] by (simp add: not_le less_imp_le)
  then show ?thesis
    by (simp add: tryAuthorityTakeover_def Let_def sendSnapshotTo_epoch sendHeartbeat_epoch)
qed

text \<open>
  The snapshot messages that a replica sends carry its epoch twice, on the envelope and
  in the snapshot.
\<close>

lemma sendSnapshotTo_wellformed:
  assumes "m \<in> set (netOut (sendSnapshotTo env target t))" and "m \<notin> set (netOut t)"
  shows "mType m = MsgSnapshot \<and> mEpoch m = epoch t
         \<and> map_option tsEpoch (mState m) = Some (epoch t)"
  using assms
  by (auto simp: sendSnapshotTo_def Let_def emit_def snapshot_def split: if_splits)

text \<open>
  Claim C4, as stated, fails in two places.  The follower \<open>exFollower\<close> is at epoch 3.
  The snapshot message \<open>exSnapshotMsg\<close> carries epoch 5 on its envelope, so it passes the
  guard \<^verbatim>\<open>msg.Epoch < t.epoch\<close> of \<^verbatim>\<open>onNet\<close>, and epoch 1 in the snapshot it holds;
  \<^verbatim>\<open>installSnapshot\<close> assigns the latter, and the replica is at epoch 1 afterwards.  And a
  follower at the largest \<^verbatim>\<open>uint64\<close> that takes over is at epoch 0 afterwards:
  \<^verbatim>\<open>t.epoch++\<close> wraps around.
\<close>

theorem epoch_can_decrease:
  "epoch exFollower = 3
   \<and> mType exSnapshotMsg = MsgSnapshot \<and> mEpoch exSnapshotMsg = 5
   \<and> map_option tsEpoch (mState exSnapshotMsg) = Some 1
   \<and> map_option epoch (onNet exEnv 100 exSnapshotMsg exFollower) = Some 1
   \<and> epoch (exFollower\<lparr>epoch := 18446744073709551615, authorityID := ''n9''\<rparr>)
       = 18446744073709551615
   \<and> epoch (tryAuthorityTakeover exEnv 10000000000
               (exFollower\<lparr>epoch := 18446744073709551615, authorityID := ''n9''\<rparr>)) = 0"
proof -
  have "map_option epoch (onNet exEnv 100 exSnapshotMsg exFollower) = Some 1"
    by (simp add: onNet_def exSnapshotMsg_def exFollower_def New_def installSnapshot_def Let_def
        TickRemote_def)
  moreover have "epoch (tryAuthorityTakeover exEnv 10000000000
               (exFollower\<lparr>epoch := 18446744073709551615, authorityID := ''n9''\<rparr>)) = 0"
    by (simp add: tryAuthorityTakeover_def exFollower_def New_def Let_def maxDur_def exCfg_def
        isSmallestNodeID_def sendSnapshotTo_epoch sendHeartbeat_epoch)
  ultimately show ?thesis
    by (simp add: exFollower_def New_def exSnapshotMsg_def)
qed

text \<open>
  Claim C4, amended.  Handling an inbound propose, commit, heartbeat or state query
  message leaves the epoch of the replica at or above its value before (the statement is
  about the steps that return: a panic inside \<^verbatim>\<open>apply\<close> leaves no state).  So does handling
  an inbound snapshot message, provided that it is dropped by the guard (the epoch of its
  envelope is below the replica's) or that the epoch in the snapshot it holds is not below
  the replica's; every snapshot message whose snapshot carries the epoch of its envelope,
  as \<^verbatim>\<open>sendSnapshotTo\<close> builds them, is of this kind.  And so does an authority takeover at
  an epoch below the largest \<^verbatim>\<open>uint64\<close>.
\<close>

theorem epoch_monotone:
  "(onNet env now msg t = Some t'
      \<and> (\<forall>ss. mType msg = MsgSnapshot \<and> mState msg = Some ss \<longrightarrow>
              mEpoch msg < epoch t \<or> epoch t \<le> tsEpoch ss \<or> tsEpoch ss = mEpoch msg)
      \<longrightarrow> epoch t \<le> epoch t')
   \<and> (epoch t \<noteq> 18446744073709551615 \<longrightarrow> epoch t \<le> epoch (tryAuthorityTakeover env now t))"
proof (intro conjI impI)
  assume a: "onNet env now msg t = Some t'
      \<and> (\<forall>ss. mType msg = MsgSnapshot \<and> mState msg = Some ss \<longrightarrow>
              mEpoch msg < epoch t \<or> epoch t \<le> tsEpoch ss \<or> tsEpoch ss = mEpoch msg)"
  have "mEpoch msg < epoch t \<or> epoch t \<le> tsEpoch ss"
    if "mType msg = MsgSnapshot" and "mState msg = Some ss" for ss
  proof -
    from a that have "mEpoch msg < epoch t \<or> epoch t \<le> tsEpoch ss \<or> tsEpoch ss = mEpoch msg"
      by blast
    then show ?thesis by (auto simp: not_less [symmetric])
  qed
  with a show "epoch t \<le> epoch t'" by (intro onNet_epoch [of env now msg t t']) simp_all
next
  assume ne: "epoch t \<noteq> 18446744073709551615"
  have m: "(- 1 :: uint64) = 18446744073709551615"
    by (simp add: neg_eq_iff_add_eq_0)
  from ne have "epoch t \<noteq> - 1" unfolding m .
  then show "epoch t \<le> epoch (tryAuthorityTakeover env now t)" by (rule takeover_epoch)
qed

theorem epoch_monotone_witness:
  "epoch exFollower = 3
   \<and> map_option epoch
        (onNet exEnv 100
           \<lparr>mTable = ''t-1'', mFrom = ''n1'', mType = MsgHeartbeat, mEpoch = 5, mLamport = 7,
            mSeq = 5, mAction = None, mState = None\<rparr> exFollower) = Some 5
   \<and> map_option epoch (onNet exEnv 100 (exCommit ActJoin ''A'' 6) exFollower) = Some 3
   \<and> map_option epoch
        (onNet exEnv 100
           (exSnapshotMsg\<lparr>mState := Some \<lparr>tsCfg = exCfg, tsSeq = 9, tsEpoch = 5,
                                           tsAuthority = ''n1'', tsEngineJSON = []\<rparr>\<rparr>)
           exFollower) = Some 5
   \<and> epoch (tryAuthorityTakeover exEnv 10000000000 (exFollower\<lparr>authorityID := ''n9''\<rparr>)) = 4
   \<and> (3 :: uint64) \<le> 5 \<and> (3 :: uint64) \<le> 4"
proof -
  let ?hb = "\<lparr>mTable = ''t-1'', mFrom = ''n1'', mType = MsgHeartbeat, mEpoch = 5, mLamport = 7,
            mSeq = 5, mAction = None, mState = None\<rparr>"
  let ?sn = "exSnapshotMsg\<lparr>mState := Some \<lparr>tsCfg = exCfg, tsSeq = 9, tsEpoch = 5,
                                           tsAuthority = ''n1'', tsEngineJSON = []\<rparr>\<rparr>"
  let ?f9 = "exFollower\<lparr>authorityID := ''n9''\<rparr>"
  have e: "epoch exFollower = 3" "epoch ?f9 = 3" by (simp_all add: exFollower_def New_def)
  have r1: "onNet exEnv 100 ?hb exFollower
      = Some (exFollower\<lparr>clock := 8, epoch := 5, authorityID := ''n1'', lastHeartbeat := 100\<rparr>)"
    by (simp add: onNet_def Let_def exFollower_def New_def TickRemote_def)
  have r2: "map_option epoch (onNet exEnv 100 (exCommit ActJoin ''A'' 6) exFollower) = Some 3"
    by (simp add: table_eval engine_eval)
  have r3: "map_option epoch (onNet exEnv 100 ?sn exFollower) = Some 5"
    by (simp add: onNet_def exSnapshotMsg_def exFollower_def New_def installSnapshot_def Let_def
        TickRemote_def)
  have r4: "epoch (tryAuthorityTakeover exEnv 10000000000 ?f9) = 4"
    by (simp add: tryAuthorityTakeover_def exFollower_def New_def Let_def maxDur_def exCfg_def
        isSmallestNodeID_def sendSnapshotTo_epoch sendHeartbeat_epoch)
  from epoch_monotone [of exEnv 100 ?hb exFollower
      "exFollower\<lparr>clock := 8, epoch := 5, authorityID := ''n1'', lastHeartbeat := 100\<rparr>"] r1
  have "epoch exFollower \<le> 5" by simp
  moreover from epoch_monotone [of exEnv 10000000000 ?hb ?f9] e r4
  have "epoch ?f9 \<le> 4" by simp
  ultimately show ?thesis using e r1 r2 r3 r4 by simp
qed

subsubsection \<open>Commit messages\<close>




end
